theory Spec2Isabelle
  imports Complex_Main "HOL-Library.Sublist" "HOL-Library.Multiset" "HOL-Library.Log_Nat"
begin

section \<open>JavaScript values\<close>

text \<open>
  The three components (\<^verbatim>\<open>Sankey.tsx\<close>, \<^verbatim>\<open>VennDiagramC.tsx\<close> with the heat map, and the
  page layout) work on rows loaded by \<^verbatim>\<open>d3.csv(..., d3.autoType)\<close>. A row is a JavaScript
  object of type \<^verbatim>\<open>any\<close>: a column that is absent reads as \<^verbatim>\<open>undefined\<close>, and
  \<^verbatim>\<open>autoType\<close> turns a cell into \<^verbatim>\<open>null\<close>, a boolean, a number, a date or a string.

  A number is \<^verbatim>\<open>NaN\<close>, an infinity, or a finite double, modelled by the rational that
  the double denotes; the two zeros are the one rational \<open>0\<close>, which no comparison of the
  source tells apart. A decimal literal of the source (\<^verbatim>\<open>1.99\<close>) and the decimal that
  \<^verbatim>\<open>parseFloat\<close> reads denote the double nearest to them. A string is the list of the
  bytes of its UTF-8 encoding.
\<close>

datatype jsnum = NaN | NegInf | Fin rat | PosInf

datatype jsval = JNull | JBool bool | JNum jsnum | JStr string | JDate

text \<open>A row: \<open>d k = None\<close> is \<^verbatim>\<open>d[k] === undefined\<close>.\<close>

type_synonym row = "string \<rightharpoonup> jsval"

datatype error = TypeError

text \<open>\<^verbatim>\<open>x >= c\<close> and \<^verbatim>\<open>x <= c\<close> for the double \<open>c\<close> of a literal: two doubles compare as
  the rationals they denote, and every comparison with \<^verbatim>\<open>NaN\<close> is false.\<close>

fun js_ge :: "jsnum \<Rightarrow> rat \<Rightarrow> bool" where
  "js_ge NaN c = False"
| "js_ge NegInf c = False"
| "js_ge (Fin r) c = (c \<le> r)"
| "js_ge PosInf c = True"

fun js_le :: "jsnum \<Rightarrow> rat \<Rightarrow> bool" where
  "js_le NaN c = False"
| "js_le NegInf c = True"
| "js_le (Fin r) c = (r \<le> c)"
| "js_le PosInf c = False"

text \<open>The postfix increment \<^verbatim>\<open>x++\<close> stores \<^verbatim>\<open>ToNumeric(x) + 1\<close>; \<^verbatim>\<open>undefined\<close>
  converts to \<^verbatim>\<open>NaN\<close>.\<close>

fun js_incr :: "jsnum option \<Rightarrow> jsnum" where
  "js_incr None = NaN"
| "js_incr (Some NaN) = NaN"
| "js_incr (Some NegInf) = NegInf"
| "js_incr (Some (Fin r)) = Fin (r + 1)"
| "js_incr (Some PosInf) = PosInf"

subsection \<open>\<^verbatim>\<open>String.prototype.toLowerCase\<close>, \<^verbatim>\<open>startsWith\<close>, \<^verbatim>\<open>includes\<close>, \<^verbatim>\<open>indexOf\<close>\<close>

text \<open>The ASCII letters are lowered and every other byte is kept. A character outside
  ASCII, which \<^verbatim>\<open>toLowerCase\<close> may change, has no ASCII letter as its lower case, so the
  comparison of the result with \<^verbatim>\<open>'yes'\<close> is the one of the source.\<close>

definition lower_char :: "char \<Rightarrow> char" where
  "lower_char c =
     (let n = (of_char c :: nat) in if 65 \<le> n \<and> n \<le> 90 then char_of (n + 32) else c)"

definition toLowerCase :: "string \<Rightarrow> string" where
  "toLowerCase s = map lower_char s"

definition startsWith :: "string \<Rightarrow> string \<Rightarrow> bool" where
  "startsWith s p = prefix p s"

definition includes' :: "'a list \<Rightarrow> 'a \<Rightarrow> bool" where
  "includes' xs x = (x \<in> set xs)"

text \<open>\<^verbatim>\<open>Array.prototype.indexOf\<close>: the first index of the element, \<open>-1\<close> when absent.\<close>

fun indexOf :: "'a list \<Rightarrow> 'a \<Rightarrow> int" where
  "indexOf [] x = -1"
| "indexOf (y # ys) x =
     (if y = x then 0 else (let i = indexOf ys x in if i < 0 then -1 else i + 1))"

subsection \<open>Rounding to the nearest double\<close>

text \<open>
  The double nearest to a rational, ties to the even significand. A double is
  \<open>m * 2 ^ e\<close> with \<open>m < 2 ^ 53\<close> and \<open>- 1074 \<le> e \<le> 971\<close>. For a rational \<open>a > 0\<close> the
  exponent \<open>e\<close> is the one that puts \<open>a / 2 ^ e\<close> between \<open>2 ^ 52\<close> and \<open>2 ^ 53\<close>, and
  \<open>- 1074\<close> for the smaller ones; the rounded significand \<open>m\<close> is then at most \<open>2 ^ 53\<close>,
  and \<open>m * 2 ^ e\<close> reaches \<open>2 ^ 1024\<close>, which rounds to an infinity, exactly when \<open>e\<close>
  is above 971, or is 971 with \<open>m = 2 ^ 53\<close>.
\<close>

definition roundHalfEven :: "rat \<Rightarrow> int" where
  "roundHalfEven x =
     (let f = \<lfloor>x\<rfloor>; d = x - of_int f
      in if d < 1 / 2 then f else if 1 / 2 < d then f + 1 else if even f then f else f + 1)"

definition pow2 :: "int \<Rightarrow> rat" where
  "pow2 e = (if 0 \<le> e then 2 ^ nat e else 1 / 2 ^ nat (- e))"

text \<open>The integer part of the binary logarithm of a positive rational \<open>p / q\<close>: with \<open>k\<close>
  the difference of the bit lengths of \<open>p\<close> and \<open>q\<close>, the rational lies between
  \<open>2 ^ (k - 1)\<close> and \<open>2 ^ (k + 1)\<close>.\<close>

definition ilog2 :: "rat \<Rightarrow> int" where
  "ilog2 a =
     (let (p, q) = quotient_of a;
          k = bitlen p - bitlen q
      in if pow2 k \<le> a then k else k - 1)"

definition toDouble :: "rat \<Rightarrow> jsnum" where
  "toDouble r =
     (if r = 0 then Fin 0
      else (let a = \<bar>r\<bar>;
                e = max (ilog2 a - 52) (- 1074);
                m = roundHalfEven (a / pow2 e);
                v = of_int m * pow2 e
            in if 971 < e \<or> (e = 971 \<and> 2 ^ 53 \<le> m) then (if r < 0 then NegInf else PosInf)
               else Fin (if r < 0 then - v else v)))"

subsection \<open>\<^verbatim>\<open>parseFloat\<close>\<close>

text \<open>
  \<^verbatim>\<open>parseFloat(v)\<close> converts \<open>v\<close> to a string, skips leading white space and reads the
  longest prefix that is a \<^verbatim>\<open>StrDecimalLiteral\<close>: an optional sign, then \<^verbatim>\<open>Infinity\<close> or
  digits with an optional fraction and an optional exponent. No such prefix gives
  \<^verbatim>\<open>NaN\<close>. The decimal read is rounded to the nearest double (the language lets an
  engine round a decimal of more than 20 significant digits less exactly; the exact
  rounding is modelled). A number converts to a string that reads back as the same number;
  \<^verbatim>\<open>undefined\<close>, \<^verbatim>\<open>null\<close>, booleans and dates convert to strings that start with
  a letter.
\<close>

text \<open>
  The white space that is skipped (\<^verbatim>\<open>StrWhiteSpaceChar\<close>), each character by the bytes of
  its encoding: tab, line feed, vertical tab, form feed, carriage return, blank,
  U+00A0, U+1680, U+2000 to U+200A, U+2028, U+2029, U+202F, U+205F, U+3000 and U+FEFF.
\<close>

definition whiteSpaceCodes :: "nat list list" where
  "whiteSpaceCodes =
     [[9], [10], [11], [12], [13], [32], [194, 160], [225, 154, 128],
      [226, 128, 128], [226, 128, 129], [226, 128, 130], [226, 128, 131], [226, 128, 132],
      [226, 128, 133], [226, 128, 134], [226, 128, 135], [226, 128, 136], [226, 128, 137],
      [226, 128, 138], [226, 128, 168], [226, 128, 169], [226, 128, 175], [226, 129, 159],
      [227, 128, 128], [239, 187, 191]]"

function skipWhiteSpace :: "string \<Rightarrow> string" where
  "skipWhiteSpace s =
     (case List.find (\<lambda>w. prefix w (map of_char s)) whiteSpaceCodes of
        None \<Rightarrow> s
      | Some w \<Rightarrow> skipWhiteSpace (drop (length w) s))"
  by pat_completeness auto
termination
proof (relation "measure length")
  show "wf (measure length)"
    by simp
next
  fix s :: string and w :: "nat list"
  assume "List.find (\<lambda>w. prefix w (map of_char s)) whiteSpaceCodes = Some w"
  then have "w \<in> set whiteSpaceCodes" and p: "prefix w (map of_char s)"
    by (auto simp: find_Some_iff)
  then have "w \<noteq> []"
    by (auto simp: whiteSpaceCodes_def)
  moreover from p have "length w \<le> length s"
    using prefix_length_le by fastforce
  ultimately show "(drop (length w) s, s) \<in> measure length"
    by (cases w) auto
qed

declare skipWhiteSpace.simps [simp del]

definition isDigit :: "char \<Rightarrow> bool" where
  "isDigit c = (c \<in> set ''0123456789'')"

definition digitsValue :: "string \<Rightarrow> int" where
  "digitsValue ds = foldl (\<lambda>acc c. 10 * acc + (of_char c - 48)) 0 ds"

definition scale10 :: "rat \<Rightarrow> int \<Rightarrow> rat" where
  "scale10 m e = (if 0 \<le> e then m * 10 ^ nat e else m / 10 ^ nat (- e))"

text \<open>The exponent part \<^verbatim>\<open>[eE][+-]?digits\<close>; it counts only when it has a digit.\<close>

definition exponentPart :: "string \<Rightarrow> int" where
  "exponentPart s =
     (case s of
        [] \<Rightarrow> 0
      | c # r \<Rightarrow>
          if c = CHR ''e'' \<or> c = CHR ''E'' then
            (let (neg, r') =
                   (case r of
                      [] \<Rightarrow> (False, r)
                    | x # xs \<Rightarrow>
                        if x = CHR ''-'' then (True, xs)
                        else if x = CHR ''+'' then (False, xs) else (False, r));
                 ds = takeWhile isDigit r'
             in if ds = [] then 0
                else if neg then - digitsValue ds else digitsValue ds)
          else 0)"

definition unsignedDecimal :: "string \<Rightarrow> rat option" where
  "unsignedDecimal s =
     (let ip = takeWhile isDigit s;
          r1 = dropWhile isDigit s;
          (fp, r2) =
            (case r1 of
               [] \<Rightarrow> ([], r1)
             | c # r \<Rightarrow>
                 if c = CHR ''.'' then (takeWhile isDigit r, dropWhile isDigit r)
                 else ([], r1))
      in if ip = [] \<and> fp = [] then None
         else Some (scale10
                (of_int (digitsValue ip) + of_int (digitsValue fp) / 10 ^ length fp)
                (exponentPart r2)))"

definition parseFloatString :: "string \<Rightarrow> jsnum" where
  "parseFloatString s =
     (let t = skipWhiteSpace s;
          (neg, u) =
            (case t of
               [] \<Rightarrow> (False, t)
             | c # r \<Rightarrow>
                 if c = CHR ''-'' then (True, r)
                 else if c = CHR ''+'' then (False, r) else (False, t))
      in if startsWith u ''Infinity'' then (if neg then NegInf else PosInf)
         else (case unsignedDecimal u of
                 None \<Rightarrow> NaN
               | Some m \<Rightarrow> toDouble (if neg then - m else m)))"

fun parseFloat :: "jsval option \<Rightarrow> jsnum" where
  "parseFloat (Some (JStr s)) = parseFloatString s"
| "parseFloat (Some (JNum n)) = n"
| "parseFloat _ = NaN"

section \<open>The flow diagram (\<^verbatim>\<open>Sankey.tsx\<close>)\<close>

subsection \<open>CGPA bins\<close>

text \<open>
  \<^verbatim>\<open>
  function getCgpabin(cgpa: number): string {
    if (cgpa >= 0 && cgpa <= 1.99) return '0-1.99';
    if (cgpa >= 2.0 && cgpa <= 2.49) return '2.0-2.49';
    if (cgpa >= 2.5 && cgpa <= 2.99) return '2.5-2.99';
    if (cgpa >= 3.0 && cgpa <= 3.49) return '3.0-3.49';
    if (cgpa >= 3.5 && cgpa <= 4.0) return '3.5-4.0';
    return 'Unknown';
  }
  \<close>
\<close>

text \<open>
  The doubles that the literals \<^verbatim>\<open>1.99\<close>, \<^verbatim>\<open>2.49\<close>, \<^verbatim>\<open>2.99\<close> and \<^verbatim>\<open>3.49\<close> denote; the other
  literals, \<^verbatim>\<open>0\<close>, \<^verbatim>\<open>2.0\<close>, \<^verbatim>\<open>2.5\<close>, \<^verbatim>\<open>3.0\<close>, \<^verbatim>\<open>3.5\<close> and \<^verbatim>\<open>4.0\<close>, are doubles themselves.
\<close>

definition lit_1_99 :: rat where
  "lit_1_99 = 8962163258467287 / 4503599627370496"

definition lit_2_49 :: rat where
  "lit_2_49 = 1401745384019067 / 562949953421312"

definition lit_2_99 :: rat where
  "lit_2_99 = 1683220360729723 / 562949953421312"

definition lit_3_49 :: rat where
  "lit_3_49 = 1964695337440379 / 562949953421312"

definition getCgpabin :: "jsnum \<Rightarrow> string" where
  "getCgpabin cgpa =
     (if js_ge cgpa 0 \<and> js_le cgpa lit_1_99 then ''0-1.99''
      else if js_ge cgpa 2 \<and> js_le cgpa lit_2_49 then ''2.0-2.49''
      else if js_ge cgpa (5 / 2) \<and> js_le cgpa lit_2_99 then ''2.5-2.99''
      else if js_ge cgpa 3 \<and> js_le cgpa lit_3_49 then ''3.0-3.49''
      else if js_ge cgpa (7 / 2) \<and> js_le cgpa 4 then ''3.5-4.0''
      else ''Unknown'')"

definition cgpaBinLabels :: "string list" where
  "cgpaBinLabels = [''0-1.99'', ''2.0-2.49'', ''2.5-2.99'', ''3.0-3.49'', ''3.5-4.0'']"

subsection \<open>Building the nodes and links\<close>

text \<open>
  A node is identified by its name; the layout coordinates, which the builder sets to
  \<open>0\<close> and only the layout changes, are left out. A link refers to its two node objects.
\<close>

record CustomNode =
  name :: string

record CustomLink =
  source :: CustomNode
  target :: CustomNode
  value' :: nat

text \<open>
  \<^verbatim>\<open>nodeMap\<close> is a \<^verbatim>\<open>Map\<close> from names to nodes, \<^verbatim>\<open>sankeyData.nodes\<close> the array of
  nodes in the order of their creation, and \<^verbatim>\<open>linkMap\<close> a \<^verbatim>\<open>Map\<close> from link keys to links,
  kept here in insertion order, the order of \<^verbatim>\<open>linkMap.values()\<close>.
\<close>

record sankeyState =
  nodes :: "CustomNode list"
  nodeMap :: "string \<rightharpoonup> CustomNode"
  linkMap :: "(string \<times> CustomLink) list"

definition emptyState :: sankeyState where
  "emptyState = \<lparr>nodes = [], nodeMap = Map.empty, linkMap = []\<rparr>"

definition addNode :: "string \<Rightarrow> sankeyState \<Rightarrow> CustomNode \<times> sankeyState" where
  "addNode nm st =
     (case nodeMap st nm of
        Some existingNode \<Rightarrow> (existingNode, st)
      | None \<Rightarrow>
          (let existingNode = \<lparr>name = nm\<rparr>
           in (existingNode,
               st\<lparr>nodeMap := (nodeMap st)(nm \<mapsto> existingNode),
                  nodes := nodes st @ [existingNode]\<rparr>)))"

text \<open>\<^verbatim>\<open>linkMap.get(key)!.value += 1\<close> on the entry of an existing key.\<close>

fun bumpLink :: "string \<Rightarrow> (string \<times> CustomLink) list \<Rightarrow> (string \<times> CustomLink) list" where
  "bumpLink k [] = []"
| "bumpLink k ((k', l) # rest) =
     (if k' = k then (k', l\<lparr>value' := value' l + 1\<rparr>) # rest
      else (k', l) # bumpLink k rest)"

definition linkKey :: "CustomNode \<Rightarrow> CustomNode \<Rightarrow> string" where
  "linkKey s t = name s @ ''->'' @ name t"

definition addLink ::
  "CustomNode \<Rightarrow> CustomNode \<Rightarrow> (string \<times> CustomLink) list \<Rightarrow> (string \<times> CustomLink) list" where
  "addLink s t lm =
     (let k = linkKey s t
      in if map_of lm k \<noteq> None then bumpLink k lm
         else lm @ [(k, \<lparr>source = s, target = t, value' = 1\<rparr>)])"

definition cgpaColumn :: string where
  "cgpaColumn = ''What is your CGPA?''"

definition conditionColumn :: "string \<Rightarrow> string" where
  "conditionColumn selectedCondition = ''Do you have '' @ selectedCondition @ ''?''"

definition treatmentColumn :: string where
  "treatmentColumn = ''Did you seek any specialist for a treatment?''"

definition cgpaRangeOf :: "row \<Rightarrow> string" where
  "cgpaRangeOf d = getCgpabin (parseFloat (d cgpaColumn))"

text \<open>\<^verbatim>\<open>v === 'Yes'\<close> holds for the string \<^verbatim>\<open>'Yes'\<close> only.\<close>

definition conditionNodeName :: "string \<Rightarrow> row \<Rightarrow> string" where
  "conditionNodeName selectedCondition d =
     selectedCondition @ '' '' @
       (if d (conditionColumn selectedCondition) = Some (JStr ''Yes'') then ''Yes'' else ''No'')"

definition treatmentNodeName :: "row \<Rightarrow> string" where
  "treatmentNodeName d =
     ''Treatment '' @ (if d treatmentColumn = Some (JStr ''Yes'') then ''Yes'' else ''No'')"

text \<open>The body of \<^verbatim>\<open>cleanData.forEach\<close> in \<^verbatim>\<open>initChart\<close>.\<close>

definition processRow :: "string \<Rightarrow> sankeyState \<Rightarrow> row \<Rightarrow> sankeyState" where
  "processRow selectedCondition st d =
     (let (cgpaNode, st1) = addNode (cgpaRangeOf d) st;
          (conditionNode, st2) = addNode (conditionNodeName selectedCondition d) st1;
          (treatmentNode, st3) = addNode (treatmentNodeName d) st2;
          st4 = st3\<lparr>linkMap := addLink cgpaNode conditionNode (linkMap st3)\<rparr>
      in st4\<lparr>linkMap := addLink conditionNode treatmentNode (linkMap st4)\<rparr>)"

definition buildState :: "string \<Rightarrow> row list \<Rightarrow> sankeyState" where
  "buildState selectedCondition cleanData =
     foldl (processRow selectedCondition) emptyState cleanData"

text \<open>\<^verbatim>\<open>sankeyData\<close> as handed to the layout: the nodes and
  \<^verbatim>\<open>Array.from(linkMap.values())\<close>.\<close>

definition sankeyNodes :: "string \<Rightarrow> row list \<Rightarrow> CustomNode list" where
  "sankeyNodes selectedCondition cleanData = nodes (buildState selectedCondition cleanData)"

definition sankeyLinks :: "string \<Rightarrow> row list \<Rightarrow> CustomLink list" where
  "sankeyLinks selectedCondition cleanData =
     map snd (linkMap (buildState selectedCondition cleanData))"

subsection \<open>Stages and weights\<close>

text \<open>
  The source tells the stage of a node from its name, as the comparator, the colours and
  the labels do: a CGPA-bin node has one of the five labels, a condition node starts with
  the selected condition and a blank, a treatment node starts with \<^verbatim>\<open>'Treatment '\<close>.
\<close>

definition isCgpaNode :: "CustomNode \<Rightarrow> bool" where
  "isCgpaNode n = includes' cgpaBinLabels (name n)"

definition isConditionNode :: "string \<Rightarrow> CustomNode \<Rightarrow> bool" where
  "isConditionNode selectedCondition n = startsWith (name n) (selectedCondition @ '' '')"

definition isTreatmentNode :: "CustomNode \<Rightarrow> bool" where
  "isTreatmentNode n = startsWith (name n) ''Treatment ''"

definition weightSum :: "(CustomLink \<Rightarrow> bool) \<Rightarrow> CustomLink list \<Rightarrow> nat" where
  "weightSum P ls = sum_list (map value' (filter P ls))"

text \<open>The two (source, target) pairs of names that a row derives.\<close>

definition rowPairs :: "string \<Rightarrow> row \<Rightarrow> (string \<times> string) list" where
  "rowPairs selectedCondition d =
     [(cgpaRangeOf d, conditionNodeName selectedCondition d),
      (conditionNodeName selectedCondition d, treatmentNodeName d)]"

definition linkPair :: "CustomLink \<Rightarrow> string \<times> string" where
  "linkPair l = (name (source l), name (target l))"

definition parseable :: "row \<Rightarrow> bool" where
  "parseable d = (parseFloat (d cgpaColumn) \<noteq> NaN)"

subsection \<open>The comparator passed to \<^verbatim>\<open>nodeSort\<close>\<close>

definition nodeSort :: "string \<Rightarrow> CustomNode \<Rightarrow> CustomNode \<Rightarrow> int" where
  "nodeSort selectedCondition a b =
     (let isCGPAA = includes' cgpaBinLabels (name a);
          isCGPAB = includes' cgpaBinLabels (name b);
          isConditionA = startsWith (name a) (selectedCondition @ '' '');
          isConditionB = startsWith (name b) (selectedCondition @ '' '');
          isTreatmentA = startsWith (name a) ''Treatment '';
          isTreatmentB = startsWith (name b) ''Treatment ''
      in if isCGPAA \<and> isCGPAB then
           indexOf cgpaBinLabels (name a) - indexOf cgpaBinLabels (name b)
         else if isCGPAA then -1
         else if isCGPAB then 1
         else if isConditionA \<and> isConditionB then
           (let order = [selectedCondition @ '' No'', selectedCondition @ '' Yes'']
            in indexOf order (name a) - indexOf order (name b))
         else if isConditionA then -1
         else if isConditionB then 1
         else if isTreatmentA \<and> isTreatmentB then
           (let order = [''Treatment No'', ''Treatment Yes'']
            in indexOf order (name a) - indexOf order (name b))
         else if isTreatmentA then -1
         else if isTreatmentB then 1
         else 0)"

section \<open>The region diagram (\<^verbatim>\<open>VennDiagramC.tsx\<close>)\<close>

text \<open>
  \<^verbatim>\<open>d[col]?.toLowerCase() === 'yes'\<close>: the optional chain yields \<^verbatim>\<open>undefined\<close> for
  \<^verbatim>\<open>undefined\<close> and \<^verbatim>\<open>null\<close>; a string is lowered and compared; any other value has no
  \<^verbatim>\<open>toLowerCase\<close> method and the call throws a \<^verbatim>\<open>TypeError\<close>.
\<close>

fun isYes :: "jsval option \<Rightarrow> error + bool" where
  "isYes None = Inr False"
| "isYes (Some JNull) = Inr False"
| "isYes (Some (JStr s)) = Inr (toLowerCase s = ''yes'')"
| "isYes (Some _) = Inl TypeError"

definition digit :: "bool \<Rightarrow> char" where
  "digit b = (if b then CHR ''1'' else CHR ''0'')"

text \<open>The template literal that both \<^verbatim>\<open>calculateFrequencies\<close> and the heat map's filter
  evaluate, left to right.\<close>

definition regionKey :: "row \<Rightarrow> error + string" where
  "regionKey d =
     (case isYes (d ''Do you have Depression?'') of
        Inl e \<Rightarrow> Inl e
      | Inr dep \<Rightarrow>
          (case isYes (d ''Do you have Anxiety?'') of
             Inl e \<Rightarrow> Inl e
           | Inr anx \<Rightarrow>
               (case isYes (d ''Do you have Panic attack?'') of
                  Inl e \<Rightarrow> Inl e
                | Inr pan \<Rightarrow> Inr [digit dep, digit anx, digit pan])))"

type_synonym Combinations = "string \<rightharpoonup> jsnum"

definition regionCodes :: "string list" where
  "regionCodes = [''100'', ''010'', ''001'', ''110'', ''101'', ''011'', ''111'']"

definition initialCombinations :: Combinations where
  "initialCombinations =
     [''100'' \<mapsto> Fin 0, ''010'' \<mapsto> Fin 0, ''001'' \<mapsto> Fin 0, ''110'' \<mapsto> Fin 0,
      ''101'' \<mapsto> Fin 0, ''011'' \<mapsto> Fin 0, ''111'' \<mapsto> Fin 0]"

text \<open>\<^verbatim>\<open>combinations[key]++\<close>\<close>

definition increment :: "string \<Rightarrow> Combinations \<Rightarrow> Combinations" where
  "increment key combinations = combinations(key \<mapsto> js_incr (combinations key))"

fun countRows :: "row list \<Rightarrow> Combinations \<Rightarrow> error + Combinations" where
  "countRows [] combinations = Inr combinations"
| "countRows (d # ds) combinations =
     (case regionKey d of
        Inl e \<Rightarrow> Inl e
      | Inr key \<Rightarrow> countRows ds (increment key combinations))"

definition calculateFrequencies :: "row list \<Rightarrow> error + Combinations" where
  "calculateFrequencies data = countRows data initialCombinations"

text \<open>The sum of the counts displayed for a list of region codes, \<^verbatim>\<open>NaN\<close> and missing
  entries aside.\<close>

fun countOf :: "jsnum option \<Rightarrow> rat" where
  "countOf (Some (Fin r)) = r"
| "countOf _ = 0"

definition regionTotal :: "Combinations \<Rightarrow> rat" where
  "regionTotal combinations = sum_list (map (\<lambda>code. countOf (combinations code)) regionCodes)"

section \<open>The frequency grid (heat map)\<close>

definition cgpaRanges :: "string list" where
  "cgpaRanges = [''0 - 1.99'', ''2.00 - 2.49'', ''2.50 - 2.99'', ''3.00 - 3.49'', ''3.50 - 4.00'']"

definition yearsOfStudy :: "string list" where
  "yearsOfStudy = [''year 1'', ''year 2'', ''year 3'', ''year 4'']"

definition yearColumn :: string where
  "yearColumn = ''Your current year of Study''"

text \<open>\<^verbatim>\<open>cleanData.filter(d => regionKey === selectedRegion)\<close>; an exception of the callback
  ends the filter.\<close>

fun filterRegion :: "string \<Rightarrow> row list \<Rightarrow> error + row list" where
  "filterRegion selectedRegion [] = Inr []"
| "filterRegion selectedRegion (d # ds) =
     (case regionKey d of
        Inl e \<Rightarrow> Inl e
      | Inr regionKey' \<Rightarrow>
          (case filterRegion selectedRegion ds of
             Inl e \<Rightarrow> Inl e
           | Inr rest \<Rightarrow> Inr (if regionKey' = selectedRegion then d # rest else rest)))"

text \<open>\<^verbatim>\<open>if (selectedRegion)\<close>: \<^verbatim>\<open>null\<close> and the empty string are falsy.\<close>

definition filteredData :: "string option \<Rightarrow> row list \<Rightarrow> error + row list" where
  "filteredData selectedRegion cleanData =
     (case selectedRegion of
        None \<Rightarrow> Inr cleanData
      | Some r \<Rightarrow> if r = [] then Inr cleanData else filterRegion r cleanData)"

record FrequencyCell =
  cgpa :: string
  year :: string
  count' :: nat

definition inCell :: "string \<Rightarrow> string \<Rightarrow> row \<Rightarrow> bool" where
  "inCell c y d = (d cgpaColumn = Some (JStr c) \<and> d yearColumn = Some (JStr y))"

definition cellsOf :: "row list \<Rightarrow> FrequencyCell list" where
  "cellsOf rows =
     concat (map (\<lambda>c. map (\<lambda>y. \<lparr>cgpa = c, year = y, count' = length (filter (inCell c y) rows)\<rparr>)
                           yearsOfStudy)
                 cgpaRanges)"

definition frequencyData :: "string option \<Rightarrow> row list \<Rightarrow> error + FrequencyCell list" where
  "frequencyData selectedRegion cleanData =
     (case filteredData selectedRegion cleanData of
        Inl e \<Rightarrow> Inl e
      | Inr rows \<Rightarrow> Inr (cellsOf rows))"

definition gridTotal :: "FrequencyCell list \<Rightarrow> nat" where
  "gridTotal cells = sum_list (map count' cells)"

text \<open>The rows that some cell of the grid counts.\<close>

definition onGrid :: "row \<Rightarrow> bool" where
  "onGrid d = (\<exists>c \<in> set cgpaRanges. \<exists>y \<in> set yearsOfStudy. inCell c y d)"

text \<open>The rows whose three condition cells are strings, \<^verbatim>\<open>null\<close> or absent, on which
  \<open>regionKey\<close> does not throw.\<close>

definition plainCell :: "jsval option \<Rightarrow> bool" where
  "plainCell v = (case v of None \<Rightarrow> True | Some JNull \<Rightarrow> True | Some (JStr s) \<Rightarrow> True | Some _ \<Rightarrow> False)"

definition plainRow :: "row \<Rightarrow> bool" where
  "plainRow d =
     (plainCell (d ''Do you have Depression?'') \<and> plainCell (d ''Do you have Anxiety?'')
      \<and> plainCell (d ''Do you have Panic attack?''))"

section \<open>The page (\<^verbatim>\<open>Layout\<close>)\<close>

text \<open>
  \<^verbatim>\<open>
  const [selectedRegion, setSelectedRegion] = useState<string | null>(null);
  const [selectedCondition, setSelectedCondition] = useState('Depression');
  \<close>
  The region diagram calls \<^verbatim>\<open>setSelectedRegion(regionCode)\<close> on a click, the reset button
  calls \<^verbatim>\<open>setSelectedRegion(null)\<close>, and the condition picker calls
  \<^verbatim>\<open>setSelectedCondition(e.target.value)\<close>.
\<close>

record layoutState =
  selectedRegion :: "string option"
  selectedCondition :: string

definition initialLayout :: layoutState where
  "initialLayout = \<lparr>selectedRegion = None, selectedCondition = ''Depression''\<rparr>"

datatype event = RegionClick string | Reset | ConditionChange string

fun handleEvent :: "layoutState \<Rightarrow> event \<Rightarrow> layoutState" where
  "handleEvent st (RegionClick regionCode) = st\<lparr>selectedRegion := Some regionCode\<rparr>"
| "handleEvent st Reset = st\<lparr>selectedRegion := None\<rparr>"
| "handleEvent st (ConditionChange v) = st\<lparr>selectedCondition := v\<rparr>"

definition runEvents :: "layoutState \<Rightarrow> event list \<Rightarrow> layoutState" where
  "runEvents st evs = foldl handleEvent st evs"

text \<open>The values that the page's own controls emit: the codes of the seven hit targets of
  the region diagram, and the three options of the picker.\<close>

definition conditionOptions :: "string list" where
  "conditionOptions = [''Depression'', ''Panic attack'', ''Anxiety'']"

fun uiEvent :: "event \<Rightarrow> bool" where
  "uiEvent (RegionClick regionCode) = (regionCode \<in> set regionCodes)"
| "uiEvent Reset = True"
| "uiEvent (ConditionChange v) = (v \<in> set conditionOptions)"

definition validState :: "layoutState \<Rightarrow> bool" where
  "validState st =
     ((case selectedRegion st of None \<Rightarrow> True | Some r \<Rightarrow> r \<in> set regionCodes)
      \<and> selectedCondition st \<in> set conditionOptions)"

section \<open>Notions used in the statements and proofs\<close>

text \<open>The region key of a row on which \<open>regionKey\<close> returns.\<close>

definition keyOf :: "row \<Rightarrow> string" where
  "keyOf d = (case regionKey d of Inl e \<Rightarrow> [] | Inr k \<Rightarrow> k)"

text \<open>The rows that one of the seven regions counts: those with a condition answered
  yes.\<close>

definition inSomeRegion :: "row \<Rightarrow> bool" where
  "inSomeRegion d = (\<exists>code \<in> set regionCodes. regionKey d = Inr code)"

text \<open>The eight spellings of \<^verbatim>\<open>yes\<close> in upper-case and lower-case letters.\<close>

definition yesSpellings :: "string list" where
  "yesSpellings = [''yes'', ''yeS'', ''yEs'', ''yES'', ''Yes'', ''YeS'', ''YEs'', ''YES'']"

text \<open>A row of the data set, with its six columns, for the examples.\<close>

definition sampleRow :: "jsval \<Rightarrow> string \<Rightarrow> string \<Rightarrow> string \<Rightarrow> string \<Rightarrow> string \<Rightarrow> row" where
  "sampleRow cg yr dep anx pan tr =
     [cgpaColumn \<mapsto> cg, yearColumn \<mapsto> JStr yr,
      ''Do you have Depression?'' \<mapsto> JStr dep, ''Do you have Anxiety?'' \<mapsto> JStr anx,
      ''Do you have Panic attack?'' \<mapsto> JStr pan, treatmentColumn \<mapsto> JStr tr]"

text \<open>The pairs of names that a row can derive under a selected condition, and the pairs
  that a record collection derives, row after row.\<close>

definition derivable :: "string \<Rightarrow> string \<times> string \<Rightarrow> bool" where
  "derivable sc p =
     ((fst p \<in> set (cgpaBinLabels @ [''Unknown'']) \<and> snd p \<in> {sc @ '' Yes'', sc @ '' No''})
      \<or> (fst p \<in> {sc @ '' Yes'', sc @ '' No''} \<and> snd p \<in> {''Treatment Yes'', ''Treatment No''}))"

definition allPairs :: "string \<Rightarrow> row list \<Rightarrow> (string \<times> string) list" where
  "allPairs sc rows = concat (map (rowPairs sc) rows)"

definition pairKey :: "string \<times> string \<Rightarrow> string" where
  "pairKey p = fst p @ ''->'' @ snd p"

text \<open>A link map that records a list of pairs: its keys are distinct, each entry is
  stored under the key of its own pair and carries the number of occurrences of that
  pair, and every pair has an entry.\<close>

definition records :: "(string \<times> CustomLink) list \<Rightarrow> (string \<times> string) list \<Rightarrow> bool" where
  "records lm ps =
     (distinct (map fst lm)
      \<and> (\<forall>(k, l) \<in> set lm. k = pairKey (linkPair l) \<and> linkPair l \<in> set ps
            \<and> value' l = count_list ps (linkPair l))
      \<and> (\<forall>p \<in> set ps. pairKey p \<in> fst ` set lm))"

text \<open>A state in which the node map is the index of the node list: the nodes are distinct
  and the map sends a name to the node of that name exactly when the list holds it.\<close>

definition registry :: "sankeyState \<Rightarrow> bool" where
  "registry st =
     (distinct (nodes st)
      \<and> (\<forall>nm. nodeMap st nm = (if \<lparr>name = nm\<rparr> \<in> set (nodes st) then Some \<lparr>name = nm\<rparr> else None)))"

text \<open>The three names that a row derives.\<close>

definition rowNames :: "string \<Rightarrow> row \<Rightarrow> string list" where
  "rowNames sc d = [cgpaRangeOf d, conditionNodeName sc d, treatmentNodeName d]"

section \<open>Properties of the CGPA bins\<close>

lemma getCgpabin_not_finite:
  "getCgpabin NaN = ''Unknown''" "getCgpabin NegInf = ''Unknown''"
  "getCgpabin PosInf = ''Unknown''"
  by (simp_all add: getCgpabin_def)

text \<open>The four constants are the doubles nearest to the decimals of the literals; the
  first lies just below its decimal, and the other three lie above theirs and below the
  lower bound of the next range.\<close>

lemma literal_doubles:
  "toDouble (199 / 100) = Fin lit_1_99" "toDouble (249 / 100) = Fin lit_2_49"
  "toDouble (299 / 100) = Fin lit_2_99" "toDouble (349 / 100) = Fin lit_3_49"
  by code_simp+

lemma literal_bounds:
  "lit_1_99 < 199 / 100" "249 / 100 < lit_2_49" "lit_2_49 < 5 / 2" "299 / 100 < lit_2_99"
  "lit_2_99 < 3" "349 / 100 < lit_3_49" "lit_3_49 < 7 / 2"
  by (simp_all add: lit_1_99_def lit_2_49_def lit_2_99_def lit_3_49_def)

text \<open>Cells as \<^verbatim>\<open>parseFloat\<close> and \<open>getCgpabin\<close> read them: the decimals \<^verbatim>\<open>1.99\<close> and \<^verbatim>\<open>2.49\<close>
  round to the bounds themselves, a decimal within half a unit in the last place of 4
  rounds to 4, white space outside ASCII is skipped, and a range label of the data set
  reads as its lower bound.\<close>

lemma parseFloat_examples:
  "getCgpabin (parseFloatString ''1.99'') = ''0-1.99''"
  "getCgpabin (parseFloatString ''2.49'') = ''2.0-2.49''"
  "getCgpabin (parseFloatString ''2.495'') = ''Unknown''"
  "getCgpabin (parseFloatString ''4.0000000000000001'') = ''3.5-4.0''"
  "getCgpabin (parseFloatString (map char_of [194, 160 :: nat] @ '' 3.6'')) = ''3.5-4.0''"
  "parseFloatString ''3.00 - 3.49'' = Fin 3"
  "parseFloatString ''N/A'' = NaN"
  by code_simp+

text \<open>
  C4, as stated, at the CGPA 1.9921875 (a value that a double holds exactly): it lies in
  [0, 2.0), and the function answers \<^verbatim>\<open>'Unknown'\<close>, not the first bin.
\<close>

theorem getCgpabin_half_open_counterexample:
  "(0::rat) \<le> 255 / 128 \<and> (255 / 128 :: rat) < 2
   \<and> getCgpabin (Fin (255 / 128)) = ''Unknown''
   \<and> getCgpabin (Fin (255 / 128)) \<noteq> ''0-1.99''"
  by (simp add: getCgpabin_def lit_1_99_def lit_2_49_def lit_2_99_def lit_3_49_def)

text \<open>
  C4, amended. \<open>getCgpabin\<close> is a total function of the CGPA alone, and its bins are the
  closed ranges between the doubles that the literals of the source denote: the range from
  0 to \<^verbatim>\<open>1.99\<close> is the first bin, from \<^verbatim>\<open>2.0\<close> to \<^verbatim>\<open>2.49\<close> the second, from \<^verbatim>\<open>2.5\<close> to \<^verbatim>\<open>2.99\<close>
  the third, from \<^verbatim>\<open>3.0\<close> to \<^verbatim>\<open>3.49\<close> the fourth, from \<^verbatim>\<open>3.5\<close> to \<^verbatim>\<open>4.0\<close> the fifth, the bounds
  included. Every other number is in the bin \<^verbatim>\<open>'Unknown'\<close>: those below 0 or above 4,
  those strictly between the upper bound of a range and the lower bound of the next,
  \<^verbatim>\<open>NaN\<close> and the infinities. The upper bounds \<^verbatim>\<open>1.99\<close>, \<^verbatim>\<open>2.49\<close>, \<^verbatim>\<open>2.99\<close> and \<^verbatim>\<open>3.49\<close> are the
  doubles nearest to these decimals.
\<close>

theorem getCgpabin_closed_ranges:
  "(0 \<le> r \<and> r \<le> lit_1_99 \<longrightarrow> getCgpabin (Fin r) = ''0-1.99'')
   \<and> (2 \<le> r \<and> r \<le> lit_2_49 \<longrightarrow> getCgpabin (Fin r) = ''2.0-2.49'')
   \<and> (5 / 2 \<le> r \<and> r \<le> lit_2_99 \<longrightarrow> getCgpabin (Fin r) = ''2.5-2.99'')
   \<and> (3 \<le> r \<and> r \<le> lit_3_49 \<longrightarrow> getCgpabin (Fin r) = ''3.0-3.49'')
   \<and> (7 / 2 \<le> r \<and> r \<le> 4 \<longrightarrow> getCgpabin (Fin r) = ''3.5-4.0'')
   \<and> (r < 0 \<or> 4 < r \<or> (lit_1_99 < r \<and> r < 2) \<or> (lit_2_49 < r \<and> r < 5 / 2)
        \<or> (lit_2_99 < r \<and> r < 3) \<or> (lit_3_49 < r \<and> r < 7 / 2)
      \<longrightarrow> getCgpabin (Fin r) = ''Unknown'')
   \<and> getCgpabin NaN = ''Unknown'' \<and> getCgpabin NegInf = ''Unknown''
   \<and> getCgpabin PosInf = ''Unknown''
   \<and> toDouble (199 / 100) = Fin lit_1_99 \<and> toDouble (249 / 100) = Fin lit_2_49
   \<and> toDouble (299 / 100) = Fin lit_2_99 \<and> toDouble (349 / 100) = Fin lit_3_49"
proof -
  note b = literal_bounds
  have b1: "0 \<le> r \<and> r \<le> lit_1_99 \<longrightarrow> getCgpabin (Fin r) = ''0-1.99''"
    by (simp add: getCgpabin_def)
  have b2: "2 \<le> r \<and> r \<le> lit_2_49 \<longrightarrow> getCgpabin (Fin r) = ''2.0-2.49''"
    using b(1) by (auto simp: getCgpabin_def)
  have b3: "5 / 2 \<le> r \<and> r \<le> lit_2_99 \<longrightarrow> getCgpabin (Fin r) = ''2.5-2.99''"
    using b(1,3) by (auto simp: getCgpabin_def)
  have b4: "3 \<le> r \<and> r \<le> lit_3_49 \<longrightarrow> getCgpabin (Fin r) = ''3.0-3.49''"
    using b(1,3,5) by (auto simp: getCgpabin_def)
  have b5: "7 / 2 \<le> r \<and> r \<le> 4 \<longrightarrow> getCgpabin (Fin r) = ''3.5-4.0''"
    using b(1,3,5,7) by (auto simp: getCgpabin_def)
  have b6: "r < 0 \<or> 4 < r \<or> (lit_1_99 < r \<and> r < 2) \<or> (lit_2_49 < r \<and> r < 5 / 2)
        \<or> (lit_2_99 < r \<and> r < 3) \<or> (lit_3_49 < r \<and> r < 7 / 2)
      \<longrightarrow> getCgpabin (Fin r) = ''Unknown''"
    using b by (auto simp: getCgpabin_def)
  from b1 b2 b3 b4 b5 b6 getCgpabin_not_finite literal_doubles show ?thesis
    by blast
qed

theorem getCgpabin_closed_ranges_witness:
  "getCgpabin (Fin (3 / 2)) = ''0-1.99'' \<and> getCgpabin (Fin lit_2_49) = ''2.0-2.49''
   \<and> getCgpabin (Fin (5 / 2)) = ''2.5-2.99'' \<and> getCgpabin (Fin (25 / 8)) = ''3.0-3.49''
   \<and> getCgpabin (Fin 4) = ''3.5-4.0'' \<and> getCgpabin (Fin (255 / 128)) = ''Unknown''
   \<and> getCgpabin (Fin 5) = ''Unknown''"
  using getCgpabin_closed_ranges [of "3 / 2"] getCgpabin_closed_ranges [of lit_2_49]
    getCgpabin_closed_ranges [of "5 / 2"] getCgpabin_closed_ranges [of "25 / 8"]
    getCgpabin_closed_ranges [of 4] getCgpabin_closed_ranges [of "255 / 128"]
    getCgpabin_closed_ranges [of 5]
  by (simp add: lit_1_99_def lit_2_49_def lit_2_99_def lit_3_49_def)

section \<open>Properties of the comparator\<close>

lemma indexOf_nth:
  "distinct xs \<Longrightarrow> i < length xs \<Longrightarrow> indexOf xs (xs ! i) = int i"
proof (induction xs arbitrary: i)
  case Nil
  then show ?case by simp
next
  case (Cons y ys)
  show ?case
  proof (cases i)
    case 0
    then show ?thesis by simp
  next
    case (Suc j)
    with Cons.prems have "ys ! j \<noteq> y" "indexOf ys (ys ! j) = int j"
      using Cons.IH[of j] by auto
    with Suc show ?thesis by (simp add: Let_def)
  qed
qed

lemma distinct_cgpaBinLabels: "distinct cgpaBinLabels"
  by (simp add: cgpaBinLabels_def)

lemma nodeSort_cgpa:
  "isCgpaNode a \<Longrightarrow> isCgpaNode b \<Longrightarrow>
   nodeSort sc a b = indexOf cgpaBinLabels (name a) - indexOf cgpaBinLabels (name b)"
  by (simp add: nodeSort_def isCgpaNode_def)

lemma nodeSort_cgpa_nth:
  assumes "i < 5" "j < 5"
  shows "nodeSort sc \<lparr>name = cgpaBinLabels ! i\<rparr> \<lparr>name = cgpaBinLabels ! j\<rparr> = int i - int j"
proof -
  have l: "length cgpaBinLabels = 5"
    by (simp add: cgpaBinLabels_def)
  with assms have "isCgpaNode \<lparr>name = cgpaBinLabels ! i\<rparr>" "isCgpaNode \<lparr>name = cgpaBinLabels ! j\<rparr>"
    by (simp_all add: isCgpaNode_def includes'_def)
  then show ?thesis
    using assms l by (simp add: nodeSort_cgpa indexOf_nth distinct_cgpaBinLabels)
qed

text \<open>No bin label holds a blank, so no name made of a condition, a blank and a status is
  a bin label.\<close>

lemma no_blank_label: "x \<in> set cgpaBinLabels \<Longrightarrow> CHR '' '' \<notin> set x"
  by (auto simp: cgpaBinLabels_def)

lemma not_label_cond: "sc @ '' '' @ r \<notin> set cgpaBinLabels"
  using no_blank_label[of "sc @ '' '' @ r"] by auto

lemma nodeSort_condition:
  "nodeSort sc \<lparr>name = sc @ '' No''\<rparr> \<lparr>name = sc @ '' Yes''\<rparr> = -1"
  "nodeSort sc \<lparr>name = sc @ '' Yes''\<rparr> \<lparr>name = sc @ '' No''\<rparr> = 1"
  using not_label_cond[of sc "''No''"] not_label_cond[of sc "''Yes''"]
  by (simp_all add: nodeSort_def includes'_def startsWith_def Let_def)

lemma blank_split:
  assumes "CHR '' '' \<notin> set u" "CHR '' '' \<notin> set v" "prefix (sc @ '' '') (u @ '' '' @ v)"
  shows "sc = u"
proof -
  from assms(3) obtain r where "u @ '' '' @ v = sc @ '' '' @ r"
    by (auto simp: prefix_def)
  then obtain w where
    "(u = sc @ w \<and> w @ '' '' @ v = '' '' @ r) \<or> (u @ w = sc \<and> '' '' @ v = w @ '' '' @ r)"
    by (auto simp: append_eq_append_conv2)
  with assms(1,2) show ?thesis
    by (cases w) auto
qed

lemma condition_prefix_treatment:
  "prefix (sc @ '' '') ''Treatment Yes'' \<Longrightarrow> sc = ''Treatment''"
  "prefix (sc @ '' '') ''Treatment No'' \<Longrightarrow> sc = ''Treatment''"
  using blank_split[of "''Treatment''" "''Yes''" sc] blank_split[of "''Treatment''" "''No''" sc]
  by simp_all

lemma nodeSort_treatment:
  "nodeSort sc \<lparr>name = ''Treatment No''\<rparr> \<lparr>name = ''Treatment Yes''\<rparr> = -1"
  "nodeSort sc \<lparr>name = ''Treatment Yes''\<rparr> \<lparr>name = ''Treatment No''\<rparr> = 1"
  by (auto simp add: nodeSort_def includes'_def startsWith_def Let_def cgpaBinLabels_def
      dest: condition_prefix_treatment)

lemma nodeSort_cross_cgpa:
  "isCgpaNode a \<Longrightarrow> \<not> isCgpaNode b \<Longrightarrow> nodeSort sc a b = -1 \<and> nodeSort sc b a = 1"
  by (simp add: nodeSort_def isCgpaNode_def Let_def)

lemma nodeSort_cross_condition:
  "\<not> isCgpaNode a \<Longrightarrow> \<not> isCgpaNode b \<Longrightarrow> isConditionNode sc a \<Longrightarrow> \<not> isConditionNode sc b
   \<Longrightarrow> nodeSort sc a b = -1 \<and> nodeSort sc b a = 1"
  by (simp add: nodeSort_def isCgpaNode_def isConditionNode_def Let_def)

lemma nodeSort_cross_treatment:
  "\<not> isCgpaNode a \<Longrightarrow> \<not> isCgpaNode b \<Longrightarrow> \<not> isConditionNode sc a \<Longrightarrow> \<not> isConditionNode sc b
   \<Longrightarrow> isTreatmentNode a \<Longrightarrow> \<not> isTreatmentNode b
   \<Longrightarrow> nodeSort sc a b = -1 \<and> nodeSort sc b a = 1"
  by (simp add: nodeSort_def isCgpaNode_def isConditionNode_def isTreatmentNode_def Let_def)

text \<open>
  C6. The comparator is a function of the two names and the selected condition only, so
  the order in which the nodes were registered plays no part. A negative result puts the
  first node before the second. Two CGPA-bin nodes compare as their indices in the fixed
  list of labels, so the bin of the smaller index comes first; of the two status nodes of
  the selected condition, and of the two treatment nodes, \<^verbatim>\<open>No\<close> comes before \<^verbatim>\<open>Yes\<close>; and
  where only one node belongs to a tier that the other has not reached (CGPA bin, then
  condition, then treatment), that node comes first.
\<close>

theorem nodeSort_three_tiers:
  "(isCgpaNode a \<and> isCgpaNode b \<longrightarrow>
      nodeSort sc a b = indexOf cgpaBinLabels (name a) - indexOf cgpaBinLabels (name b))
   \<and> (i < j \<and> j < 5 \<longrightarrow>
        nodeSort sc \<lparr>name = cgpaBinLabels ! i\<rparr> \<lparr>name = cgpaBinLabels ! j\<rparr> < 0
        \<and> nodeSort sc \<lparr>name = cgpaBinLabels ! j\<rparr> \<lparr>name = cgpaBinLabels ! i\<rparr> > 0)
   \<and> nodeSort sc \<lparr>name = sc @ '' No''\<rparr> \<lparr>name = sc @ '' Yes''\<rparr> < 0
   \<and> nodeSort sc \<lparr>name = sc @ '' Yes''\<rparr> \<lparr>name = sc @ '' No''\<rparr> > 0
   \<and> nodeSort sc \<lparr>name = ''Treatment No''\<rparr> \<lparr>name = ''Treatment Yes''\<rparr> < 0
   \<and> nodeSort sc \<lparr>name = ''Treatment Yes''\<rparr> \<lparr>name = ''Treatment No''\<rparr> > 0
   \<and> (isCgpaNode a \<and> \<not> isCgpaNode b \<longrightarrow> nodeSort sc a b < 0 \<and> nodeSort sc b a > 0)
   \<and> (\<not> isCgpaNode a \<and> \<not> isCgpaNode b \<and> isConditionNode sc a \<and> \<not> isConditionNode sc b \<longrightarrow>
        nodeSort sc a b < 0 \<and> nodeSort sc b a > 0)
   \<and> (\<not> isCgpaNode a \<and> \<not> isCgpaNode b \<and> \<not> isConditionNode sc a \<and> \<not> isConditionNode sc b
        \<and> isTreatmentNode a \<and> \<not> isTreatmentNode b \<longrightarrow>
        nodeSort sc a b < 0 \<and> nodeSort sc b a > 0)"
proof -
  have bins: "i < j \<and> j < 5 \<longrightarrow>
        nodeSort sc \<lparr>name = cgpaBinLabels ! i\<rparr> \<lparr>name = cgpaBinLabels ! j\<rparr> < 0
        \<and> nodeSort sc \<lparr>name = cgpaBinLabels ! j\<rparr> \<lparr>name = cgpaBinLabels ! i\<rparr> > 0"
    by (simp add: nodeSort_cgpa_nth)
  have c1: "isCgpaNode a \<and> \<not> isCgpaNode b \<longrightarrow> nodeSort sc a b < 0 \<and> nodeSort sc b a > 0"
    using nodeSort_cross_cgpa[of a b sc] by simp
  have c2: "\<not> isCgpaNode a \<and> \<not> isCgpaNode b \<and> isConditionNode sc a \<and> \<not> isConditionNode sc b \<longrightarrow>
        nodeSort sc a b < 0 \<and> nodeSort sc b a > 0"
    using nodeSort_cross_condition[of a b sc] by simp
  have c3: "\<not> isCgpaNode a \<and> \<not> isCgpaNode b \<and> \<not> isConditionNode sc a \<and> \<not> isConditionNode sc b
        \<and> isTreatmentNode a \<and> \<not> isTreatmentNode b \<longrightarrow>
        nodeSort sc a b < 0 \<and> nodeSort sc b a > 0"
    using nodeSort_cross_treatment[of a b sc] by simp
  from bins c1 c2 c3 show ?thesis
    by (simp add: nodeSort_cgpa nodeSort_condition nodeSort_treatment)
qed

theorem nodeSort_three_tiers_witness:
  "nodeSort ''Anxiety'' \<lparr>name = ''2.0-2.49''\<rparr> \<lparr>name = ''3.5-4.0''\<rparr> = - 3
   \<and> nodeSort ''Anxiety'' \<lparr>name = ''2.0-2.49''\<rparr> \<lparr>name = ''3.5-4.0''\<rparr> < 0
   \<and> nodeSort ''Anxiety'' \<lparr>name = ''3.5-4.0''\<rparr> \<lparr>name = ''2.0-2.49''\<rparr> > 0
   \<and> nodeSort ''Anxiety'' \<lparr>name = ''3.5-4.0''\<rparr> \<lparr>name = ''Anxiety No''\<rparr> < 0
   \<and> nodeSort ''Anxiety'' \<lparr>name = ''Anxiety Yes''\<rparr> \<lparr>name = ''Treatment No''\<rparr> < 0
   \<and> nodeSort ''Anxiety'' \<lparr>name = ''Treatment Yes''\<rparr> \<lparr>name = ''other''\<rparr> < 0"
  using nodeSort_three_tiers [of "\<lparr>name = ''2.0-2.49''\<rparr>" "\<lparr>name = ''3.5-4.0''\<rparr>" "''Anxiety''" 1 4]
    nodeSort_three_tiers [of "\<lparr>name = ''3.5-4.0''\<rparr>" "\<lparr>name = ''Anxiety No''\<rparr>" "''Anxiety''" 1 4]
    nodeSort_three_tiers [of "\<lparr>name = ''Anxiety Yes''\<rparr>" "\<lparr>name = ''Treatment No''\<rparr>" "''Anxiety''" 1 4]
    nodeSort_three_tiers [of "\<lparr>name = ''Treatment Yes''\<rparr>" "\<lparr>name = ''other''\<rparr>" "''Anxiety''" 1 4]
  by (simp add: isCgpaNode_def isConditionNode_def isTreatmentNode_def includes'_def
      startsWith_def cgpaBinLabels_def)

section \<open>Properties of the region counts\<close>

lemma isYes_plain: "plainCell v \<Longrightarrow> \<exists>b. isYes v = Inr b"
  by (cases v rule: isYes.cases) (auto simp: plainCell_def)

lemma isYes_not_plain: "\<not> plainCell v \<Longrightarrow> isYes v = Inl TypeError"
  by (cases v rule: isYes.cases) (simp_all add: plainCell_def)

lemma regionKey_plain:
  assumes "plainRow d"
  shows "\<exists>k. regionKey d = Inr k \<and> k \<in> set (''000'' # regionCodes)"
proof -
  from assms obtain a where a: "isYes (d ''Do you have Depression?'') = Inr a"
    using isYes_plain unfolding plainRow_def by blast
  from assms obtain b where b: "isYes (d ''Do you have Anxiety?'') = Inr b"
    using isYes_plain unfolding plainRow_def by blast
  from assms obtain c where c: "isYes (d ''Do you have Panic attack?'') = Inr c"
    using isYes_plain unfolding plainRow_def by blast
  have k: "regionKey d = Inr [digit a, digit b, digit c]"
    by (simp add: regionKey_def a b c)
  have "[digit a, digit b, digit c] \<in> set (''000'' # regionCodes)"
    by (cases a; cases b; cases c; simp add: digit_def regionCodes_def)
  with k show ?thesis by blast
qed

lemma error_single: "(e::error) = TypeError"
  by (cases e) simp

lemma regionKey_not_plain:
  assumes "\<not> plainRow d"
  shows "regionKey d = Inl TypeError"
proof -
  from assms consider "\<not> plainCell (d ''Do you have Depression?'')"
    | "\<not> plainCell (d ''Do you have Anxiety?'')" | "\<not> plainCell (d ''Do you have Panic attack?'')"
    unfolding plainRow_def by blast
  then show ?thesis
    by cases (auto simp: regionKey_def isYes_not_plain split: sum.split intro: error_single)
qed

lemma regionKey_keyOf: "plainRow d \<Longrightarrow> regionKey d = Inr (keyOf d)"
  using regionKey_plain[of d] by (auto simp: keyOf_def)

lemma keyOf_eq: "plainRow d \<Longrightarrow> (regionKey d = Inr k) = (keyOf d = k)"
  by (auto simp: regionKey_keyOf)

lemma countRows_plain:
  "\<forall>d \<in> set ds. plainRow d \<Longrightarrow>
   countRows ds c = Inr (fold (\<lambda>d. increment (keyOf d)) ds c)"
  by (induction ds arbitrary: c) (simp_all add: regionKey_keyOf)

lemma countRows_not_plain:
  "\<exists>d \<in> set ds. \<not> plainRow d \<Longrightarrow> countRows ds c = Inl TypeError"
proof (induction ds arbitrary: c)
  case Nil
  then show ?case by simp
next
  case (Cons d ds)
  show ?case
  proof (cases "plainRow d")
    case True
    with Cons show ?thesis by (simp add: regionKey_keyOf)
  next
    case False
    then show ?thesis by (simp add: regionKey_not_plain)
  qed
qed

lemma increment_commute: "increment j \<circ> increment k = increment k \<circ> increment j"
  by (rule ext) (auto simp: increment_def fun_upd_twist)

lemma fold_increment_code:
  "c code = Some (Fin r) \<Longrightarrow>
   fold (\<lambda>d. increment (keyOf d)) ds c code
     = Some (Fin (r + of_nat (length (filter (\<lambda>d. keyOf d = code) ds))))"
  by (induction ds arbitrary: c r) (simp_all add: increment_def)

lemma count_one:
  "distinct xs \<Longrightarrow>
   sum_list (map (\<lambda>x. if a = x then (1::nat) else 0) xs) = (if a \<in> set xs then 1 else 0)"
  by (induction xs) auto

lemma length_filter_indicator:
  "length (filter P xs) = sum_list (map (\<lambda>x. if P x then (1::nat) else 0) xs)"
  by (induction xs) simp_all

lemma sum_counts_by_key:
  "distinct cs \<Longrightarrow>
   sum_list (map (\<lambda>c. length (filter (\<lambda>d. f d = c) ds)) cs) = length (filter (\<lambda>d. f d \<in> set cs) ds)"
proof (induction ds)
  case Nil
  then show ?case by simp
next
  case (Cons d ds)
  have "sum_list (map (\<lambda>c. length (filter (\<lambda>d. f d = c) (d # ds))) cs)
      = sum_list (map (\<lambda>c. (if f d = c then 1 else 0) + length (filter (\<lambda>d. f d = c) ds)) cs)"
    by (rule arg_cong[where f=sum_list]) simp
  also have "\<dots> = sum_list (map (\<lambda>c. if f d = c then 1 else 0) cs)
                  + sum_list (map (\<lambda>c. length (filter (\<lambda>d. f d = c) ds)) cs)"
    by (simp add: sum_list_addf)
  finally show ?case
    using Cons by (simp add: count_one)
qed

lemma distinct_regionCodes: "distinct regionCodes"
  by (simp add: regionCodes_def)

lemma initialCombinations_code:
  "code \<in> set regionCodes \<Longrightarrow> initialCombinations code = Some (Fin 0)"
  by (auto simp: regionCodes_def initialCombinations_def)

lemma calculateFrequencies_code:
  assumes "\<forall>d \<in> set data. plainRow d" "calculateFrequencies data = Inr m" "code \<in> set regionCodes"
  shows "m code = Some (Fin (of_nat (length (filter (\<lambda>d. keyOf d = code) data))))"
  using assms
    fold_increment_code[where c = initialCombinations and code = code and r = 0 and ds = data]
  by (simp add: calculateFrequencies_def countRows_plain initialCombinations_code)

lemma inSomeRegion_keyOf: "inSomeRegion = (\<lambda>d. keyOf d \<in> set regionCodes)"
proof (rule ext)
  fix d
  show "inSomeRegion d = (keyOf d \<in> set regionCodes)"
  proof (cases "plainRow d")
    case True
    then show ?thesis by (auto simp: inSomeRegion_def keyOf_eq)
  next
    case False
    then show ?thesis
      by (auto simp: inSomeRegion_def keyOf_def regionKey_not_plain regionCodes_def)
  qed
qed

lemma regionTotal_count:
  assumes "\<forall>code \<in> set regionCodes. m code = Some (Fin (of_nat (length (filter (\<lambda>d. keyOf d = code) data))))"
  shows "regionTotal m = of_nat (length (filter inSomeRegion data))"
proof -
  have "regionTotal m = sum_list (map (\<lambda>code. of_nat (length (filter (\<lambda>d. keyOf d = code) data))) regionCodes)"
    unfolding regionTotal_def using assms
    by (intro arg_cong[where f=sum_list] map_cong) simp_all
  also have "\<dots> = of_nat (sum_list (map (\<lambda>code. length (filter (\<lambda>d. keyOf d = code) data)) regionCodes))"
    by (simp add: sum_list_of_nat [symmetric] comp_def)
  finally show ?thesis
    by (simp add: sum_counts_by_key distinct_regionCodes inSomeRegion_keyOf)
qed

section \<open>Properties of the frequency grid\<close>

lemma filterRegion_plain:
  "\<forall>d \<in> set ds. plainRow d \<Longrightarrow> filterRegion r ds = Inr (filter (\<lambda>d. keyOf d = r) ds)"
  by (induction ds) (simp_all add: regionKey_keyOf)

lemma filterRegion_not_plain:
  "\<exists>d \<in> set ds. \<not> plainRow d \<Longrightarrow> filterRegion r ds = Inl TypeError"
proof (induction ds)
  case Nil
  then show ?case by simp
next
  case (Cons d ds)
  show ?case
  proof (cases "plainRow d")
    case True
    with Cons show ?thesis by (simp add: regionKey_keyOf)
  next
    case False
    then show ?thesis by (simp add: regionKey_not_plain)
  qed
qed

lemma count_one_image:
  "distinct xs \<Longrightarrow> inj_on g (set xs) \<Longrightarrow>
   sum_list (map (\<lambda>x. if v = g x then (1::nat) else 0) xs) = (if v \<in> g ` set xs then 1 else 0)"
  by (induction xs) auto

lemma cellsOf_product:
  "cellsOf rows =
     map (\<lambda>(c, y). \<lparr>cgpa = c, year = y, count' = length (filter (inCell c y) rows)\<rparr>)
       (List.product cgpaRanges yearsOfStudy)"
  by (simp add: cellsOf_def product_concat_map map_concat comp_def)

lemma distinct_cells: "distinct (List.product cgpaRanges yearsOfStudy)"
  by (rule distinct_product) (simp_all add: cgpaRanges_def yearsOfStudy_def)

lemma inCell_labels:
  "inCell c y d = ((d cgpaColumn, d yearColumn) = (Some (JStr c), Some (JStr y)))"
  by (simp add: inCell_def)

lemma row_cells:
  "sum_list (map (\<lambda>(c, y). if inCell c y d then (1::nat) else 0)
       (List.product cgpaRanges yearsOfStudy)) = (if onGrid d then 1 else 0)"
proof -
  let ?g = "\<lambda>(c, y). (Some (JStr c), Some (JStr y))"
  have inj: "inj_on ?g (set (List.product cgpaRanges yearsOfStudy))"
    by (auto simp: inj_on_def)
  have "(\<lambda>(c, y). if inCell c y d then (1::nat) else 0)
      = (\<lambda>p. if (d cgpaColumn, d yearColumn) = ?g p then 1 else 0)"
    by (auto simp: inCell_labels fun_eq_iff)
  moreover have "onGrid d = ((d cgpaColumn, d yearColumn) \<in> ?g ` set (List.product cgpaRanges yearsOfStudy))"
    by (auto simp: onGrid_def inCell_def image_iff)
  ultimately show ?thesis
    using count_one_image[OF distinct_cells inj, of "(d cgpaColumn, d yearColumn)"]
    by simp
qed

lemma gridTotal_cellsOf: "gridTotal (cellsOf rows) = length (filter onGrid rows)"
proof -
  let ?P = "List.product cgpaRanges yearsOfStudy"
  have g: "gridTotal (cellsOf rows) = sum_list (map (\<lambda>(c, y). length (filter (inCell c y) rows)) ?P)" for rows
    by (simp add: gridTotal_def cellsOf_product comp_def case_prod_unfold)
  have "sum_list (map (\<lambda>(c, y). length (filter (inCell c y) rows)) ?P) = length (filter onGrid rows)"
  proof (induction rows)
    case Nil
    then show ?case by (simp add: case_prod_unfold)
  next
    case (Cons d rows)
    have "sum_list (map (\<lambda>(c, y). length (filter (inCell c y) (d # rows))) ?P)
        = sum_list (map (\<lambda>p. (case p of (c, y) \<Rightarrow> if inCell c y d then 1 else 0)
                               + (case p of (c, y) \<Rightarrow> length (filter (inCell c y) rows))) ?P)"
      by (rule arg_cong[where f=sum_list]) (simp add: case_prod_unfold)
    also have "\<dots> = sum_list (map (\<lambda>(c, y). if inCell c y d then 1 else 0) ?P)
                    + sum_list (map (\<lambda>(c, y). length (filter (inCell c y) rows)) ?P)"
      by (simp only: sum_list_addf)
    finally show ?case
      using Cons by (simp add: row_cells)
  qed
  with g show ?thesis by simp
qed

lemma cells_matching_row:
  "length (filter (\<lambda>cell. inCell (cgpa cell) (year cell) d) (cellsOf rows))
   = (if onGrid d then 1 else 0)"
proof -
  have "length (filter (\<lambda>cell. inCell (cgpa cell) (year cell) d) (cellsOf rows))
      = sum_list (map (\<lambda>(c, y). if inCell c y d then (1::nat) else 0)
          (List.product cgpaRanges yearsOfStudy))"
    by (simp add: length_filter_indicator cellsOf_product comp_def case_prod_unfold)
  then show ?thesis by (simp add: row_cells)
qed

lemma filteredData_plain:
  "\<forall>d \<in> set data. plainRow d \<Longrightarrow>
   filteredData sel data
     = Inr (case sel of None \<Rightarrow> data
            | Some r \<Rightarrow> if r = [] then data else filter (\<lambda>d. keyOf d = r) data)"
  by (simp add: filteredData_def filterRegion_plain split: option.split)

lemma filteredData_Inr:
  assumes "filteredData sel data = Inr rows"
  shows "rows = (case sel of None \<Rightarrow> data
            | Some r \<Rightarrow> if r = [] then data else filter (\<lambda>d. keyOf d = r) data)"
proof (cases "\<forall>d \<in> set data. plainRow d")
  case True
  with assms show ?thesis by (simp add: filteredData_plain)
next
  case False
  then have "filterRegion r data = Inl TypeError" for r
    by (simp add: filterRegion_not_plain)
  with assms show ?thesis
    by (simp add: filteredData_def split: option.splits if_splits)
qed

lemma cellsOf_mset: "mset rows = mset rows' \<Longrightarrow> cellsOf rows = cellsOf rows'"
proof -
  assume e: "mset rows = mset rows'"
  have "length (filter P rows) = length (filter P rows')" for P :: "row \<Rightarrow> bool"
  proof -
    have "mset (filter P rows) = mset (filter P rows')"
      using e by (metis mset_filter)
    then show ?thesis by (rule mset_eq_length)
  qed
  then show ?thesis by (simp add: cellsOf_def)
qed

section \<open>The claims on the region counts and the grid\<close>

lemma calculateFrequencies_plain:
  "\<forall>d \<in> set data. plainRow d \<Longrightarrow>
   calculateFrequencies data = Inr (fold (\<lambda>d. increment (keyOf d)) data initialCombinations)"
  by (simp add: calculateFrequencies_def countRows_plain)

lemma calculateFrequencies_not_plain:
  "\<exists>d \<in> set data. \<not> plainRow d \<Longrightarrow> calculateFrequencies data = Inl TypeError"
  by (simp add: calculateFrequencies_def countRows_not_plain)

lemma plain_sampleRow: "plainRow (sampleRow cg yr dep anx pan tr)"
  by (simp add: plainRow_def plainCell_def sampleRow_def cgpaColumn_def yearColumn_def
      treatmentColumn_def)

lemma regionKey_sampleRow:
  "regionKey (sampleRow cg yr dep anx pan tr)
   = Inr [digit (toLowerCase dep = ''yes''), digit (toLowerCase anx = ''yes''),
          digit (toLowerCase pan = ''yes'')]"
  by (simp add: regionKey_def sampleRow_def cgpaColumn_def yearColumn_def treatmentColumn_def)

lemma toLowerCase_samples:
  "toLowerCase ''Yes'' = ''yes''" "toLowerCase ''yes'' = ''yes''" "toLowerCase ''No'' = ''no''"
  by code_simp+

text \<open>
  C2, as stated, at the collection of one record that answers \<^verbatim>\<open>No\<close> to the three
  conditions: the collection is not empty, the seven region counts stay 0, and the record
  is counted under the key \<^verbatim>\<open>'000'\<close>, which is not one of the seven and whose value becomes
  \<^verbatim>\<open>NaN\<close>.
\<close>

theorem region_sum_counterexample:
  "calculateFrequencies [sampleRow (JStr ''3.00 - 3.49'') ''year 1'' ''No'' ''No'' ''No'' ''No'']
     = Inr (initialCombinations(''000'' \<mapsto> NaN))
   \<and> regionTotal (initialCombinations(''000'' \<mapsto> NaN)) = 0
   \<and> length [sampleRow (JStr ''3.00 - 3.49'') ''year 1'' ''No'' ''No'' ''No'' ''No''] = 1"
proof -
  have "initialCombinations ''000'' = None"
    by (simp add: initialCombinations_def)
  then have "calculateFrequencies [sampleRow (JStr ''3.00 - 3.49'') ''year 1'' ''No'' ''No'' ''No'' ''No'']
     = Inr (initialCombinations(''000'' \<mapsto> NaN))"
    by (simp add: calculateFrequencies_def regionKey_sampleRow toLowerCase_samples digit_def
        increment_def)
  moreover have "regionTotal (initialCombinations(''000'' \<mapsto> NaN)) = 0"
    by (simp add: regionTotal_def regionCodes_def initialCombinations_def)
  ultimately show ?thesis by simp
qed

lemma regionKey_digits:
  assumes "regionKey d = Inr k"
  shows "isYes (d ''Do you have Depression?'') = Inr (k ! 0 = CHR ''1'')
     \<and> isYes (d ''Do you have Anxiety?'') = Inr (k ! 1 = CHR ''1'')
     \<and> isYes (d ''Do you have Panic attack?'') = Inr (k ! 2 = CHR ''1'')
     \<and> length k = 3"
  using assms by (auto simp: regionKey_def digit_def split: sum.splits if_splits)

lemma inSomeRegion_yes:
  assumes "plainRow d"
  shows "inSomeRegion d
     = (isYes (d ''Do you have Depression?'') = Inr True
        \<or> isYes (d ''Do you have Anxiety?'') = Inr True
        \<or> isYes (d ''Do you have Panic attack?'') = Inr True)"
proof -
  from regionKey_plain[OF assms] obtain k where k: "regionKey d = Inr k"
    and m: "k \<in> set (''000'' # regionCodes)"
    by blast
  have "inSomeRegion d = (k \<in> set regionCodes)"
    by (simp add: inSomeRegion_def k)
  also have "\<dots> = (k ! 0 = CHR ''1'' \<or> k ! 1 = CHR ''1'' \<or> k ! 2 = CHR ''1'')"
    using m by (auto simp: regionCodes_def)
  finally show ?thesis
    using regionKey_digits[OF k] by simp
qed

text \<open>
  C2, amended. For every record collection whose condition cells are strings, \<^verbatim>\<open>null\<close> or
  absent, \<open>calculateFrequencies\<close> returns a map in which each of the seven region codes
  holds the number of records with that code, and the sum of the seven counts is the
  number of records that have one of the seven codes. These are the records that answer
  yes, in any spelling of upper-case and lower-case letters, to at least one of the three
  conditions: a record that answers yes to none is in none of the seven regions.
\<close>

theorem region_counts_sum:
  assumes "\<forall>d \<in> set data. plainRow d"
  shows "(\<exists>m. calculateFrequencies data = Inr m
       \<and> (\<forall>code \<in> set regionCodes.
             m code = Some (Fin (of_nat (length (filter (\<lambda>d. regionKey d = Inr code) data)))))
       \<and> regionTotal m = of_nat (length (filter inSomeRegion data)))
     \<and> (\<forall>d \<in> set data.
           inSomeRegion d
           = (isYes (d ''Do you have Depression?'') = Inr True
              \<or> isYes (d ''Do you have Anxiety?'') = Inr True
              \<or> isYes (d ''Do you have Panic attack?'') = Inr True))"
proof -
  from assms obtain m where m: "calculateFrequencies data = Inr m"
    by (simp add: calculateFrequencies_plain)
  have k: "filter (\<lambda>d. regionKey d = Inr code) data = filter (\<lambda>d. keyOf d = code) data" for code
    using assms by (intro filter_cong) (simp_all add: keyOf_eq)
  have c: "\<forall>code \<in> set regionCodes.
      m code = Some (Fin (of_nat (length (filter (\<lambda>d. keyOf d = code) data))))"
    using calculateFrequencies_code[OF assms m] by blast
  then have "regionTotal m = of_nat (length (filter inSomeRegion data))"
    by (rule regionTotal_count)
  with m c have "\<exists>m. calculateFrequencies data = Inr m
       \<and> (\<forall>code \<in> set regionCodes.
             m code = Some (Fin (of_nat (length (filter (\<lambda>d. regionKey d = Inr code) data)))))
       \<and> regionTotal m = of_nat (length (filter inSomeRegion data))"
    by (simp add: k)
  with assms show ?thesis
    by (simp add: inSomeRegion_yes)
qed

theorem region_counts_sum_witness:
  "(\<exists>m. calculateFrequencies
          [sampleRow (JStr ''3.00 - 3.49'') ''year 2'' ''Yes'' ''No'' ''yes'' ''No'',
           sampleRow (JStr ''3.00 - 3.49'') ''year 1'' ''No'' ''No'' ''No'' ''No''] = Inr m
      \<and> m ''101'' = Some (Fin 1) \<and> m ''111'' = Some (Fin 0) \<and> regionTotal m = 1)
   \<and> inSomeRegion (sampleRow (JStr ''3.00 - 3.49'') ''year 2'' ''Yes'' ''No'' ''yes'' ''No'')
   \<and> \<not> inSomeRegion (sampleRow (JStr ''3.00 - 3.49'') ''year 1'' ''No'' ''No'' ''No'' ''No'')"
proof -
  let ?data = "[sampleRow (JStr ''3.00 - 3.49'') ''year 2'' ''Yes'' ''No'' ''yes'' ''No'',
           sampleRow (JStr ''3.00 - 3.49'') ''year 1'' ''No'' ''No'' ''No'' ''No'']"
  have p: "\<forall>d \<in> set ?data. plainRow d"
    by (simp add: plain_sampleRow)
  have r: "inSomeRegion (sampleRow (JStr ''3.00 - 3.49'') ''year 2'' ''Yes'' ''No'' ''yes'' ''No'')"
    "\<not> inSomeRegion (sampleRow (JStr ''3.00 - 3.49'') ''year 1'' ''No'' ''No'' ''No'' ''No'')"
    using region_counts_sum[OF p]
    by (simp_all add: sampleRow_def cgpaColumn_def yearColumn_def treatmentColumn_def
        toLowerCase_samples)
  from region_counts_sum[OF p] obtain m where m: "calculateFrequencies ?data = Inr m"
    and c: "\<forall>code \<in> set regionCodes.
             m code = Some (Fin (of_nat (length (filter (\<lambda>d. regionKey d = Inr code) ?data))))"
    and t: "regionTotal m = of_nat (length (filter inSomeRegion ?data))"
    by blast
  from c have "m ''101'' = Some (Fin 1)" "m ''111'' = Some (Fin 0)"
    by (simp_all add: regionCodes_def regionKey_sampleRow toLowerCase_samples digit_def)
  moreover from t r have "regionTotal m = 1"
    by simp
  ultimately show ?thesis
    using m r by blast
qed

lemma onGrid_sampleRow:
  "onGrid (sampleRow cg yr dep anx pan tr)
   = ((\<exists>c \<in> set cgpaRanges. cg = JStr c) \<and> yr \<in> set yearsOfStudy)"
  by (auto simp: onGrid_def inCell_def sampleRow_def cgpaColumn_def yearColumn_def
      treatmentColumn_def)

text \<open>
  C3, as stated, at the collection of the one record of the specification's scenario A
  (depression and panic attack, CGPA the number 3.2, year 2): no cell counts it, since a
  cell compares the CGPA cell with a range label, so the grid total is 0 with no active
  region, where the collection has one record, and 0 with the active region \<^verbatim>\<open>'101'\<close>,
  where the region count is 1.
\<close>

theorem grid_total_counterexample:
  "frequencyData None [sampleRow (JNum (Fin (16 / 5))) ''year 2'' ''Yes'' ''No'' ''Yes'' ''No'']
     = Inr (cellsOf [sampleRow (JNum (Fin (16 / 5))) ''year 2'' ''Yes'' ''No'' ''Yes'' ''No''])
   \<and> frequencyData (Some ''101'')
        [sampleRow (JNum (Fin (16 / 5))) ''year 2'' ''Yes'' ''No'' ''Yes'' ''No'']
     = Inr (cellsOf [sampleRow (JNum (Fin (16 / 5))) ''year 2'' ''Yes'' ''No'' ''Yes'' ''No''])
   \<and> gridTotal (cellsOf [sampleRow (JNum (Fin (16 / 5))) ''year 2'' ''Yes'' ''No'' ''Yes'' ''No'']) = 0
   \<and> length [sampleRow (JNum (Fin (16 / 5))) ''year 2'' ''Yes'' ''No'' ''Yes'' ''No''] = 1
   \<and> calculateFrequencies [sampleRow (JNum (Fin (16 / 5))) ''year 2'' ''Yes'' ''No'' ''Yes'' ''No'']
     = Inr (initialCombinations(''101'' \<mapsto> Fin 1))"
proof -
  let ?r = "sampleRow (JNum (Fin (16 / 5))) ''year 2'' ''Yes'' ''No'' ''Yes'' ''No''"
  have k: "regionKey ?r = Inr ''101''"
    by (simp add: regionKey_sampleRow toLowerCase_samples digit_def)
  have "frequencyData None [?r] = Inr (cellsOf [?r])"
    by (simp add: frequencyData_def filteredData_def)
  moreover have "frequencyData (Some ''101'') [?r] = Inr (cellsOf [?r])"
    by (simp add: frequencyData_def filteredData_def k)
  moreover have "gridTotal (cellsOf [?r]) = 0"
    by (simp add: gridTotal_cellsOf onGrid_sampleRow)
  moreover have "initialCombinations ''101'' = Some (Fin 0)"
    by (simp add: initialCombinations_def)
  then have "calculateFrequencies [?r] = Inr (initialCombinations(''101'' \<mapsto> Fin 1))"
    by (simp add: calculateFrequencies_def k increment_def)
  ultimately show ?thesis by simp
qed

text \<open>
  C3, amended. For every record collection in which each record lies on the grid (its CGPA
  cell is one of the five range labels and its year cell one of the four year labels),
  the grid is returned and its total count with no active region is the number of
  records; with one of the seven region codes as the active region, and condition cells
  that are strings, \<^verbatim>\<open>null\<close> or absent, it is the count that \<open>calculateFrequencies\<close> reports
  for that code.
\<close>

theorem grid_total_on_grid:
  assumes "\<forall>d \<in> set data. onGrid d"
  shows "(\<exists>cells. frequencyData None data = Inr cells \<and> gridTotal cells = length data)
     \<and> (code \<in> set regionCodes \<and> (\<forall>d \<in> set data. plainRow d) \<longrightarrow>
          (\<exists>cells m. frequencyData (Some code) data = Inr cells
             \<and> calculateFrequencies data = Inr m
             \<and> m code = Some (Fin (of_nat (gridTotal cells)))))"
proof -
  have all: "filter onGrid rows = rows" if "set rows \<subseteq> set data" for rows
    using assms that by (auto simp: filter_id_conv)
  have "frequencyData None data = Inr (cellsOf data)"
    by (simp add: frequencyData_def filteredData_def)
  moreover have "gridTotal (cellsOf data) = length data"
    by (simp add: gridTotal_cellsOf all)
  moreover have "\<exists>cells m. frequencyData (Some code) data = Inr cells
             \<and> calculateFrequencies data = Inr m
             \<and> m code = Some (Fin (of_nat (gridTotal cells)))"
    if code: "code \<in> set regionCodes" and plain: "\<forall>d \<in> set data. plainRow d"
  proof -
    from code have "code \<noteq> []"
      by (auto simp: regionCodes_def)
    with plain have f: "frequencyData (Some code) data
        = Inr (cellsOf (filter (\<lambda>d. keyOf d = code) data))"
      by (simp add: frequencyData_def filteredData_plain)
    have t: "gridTotal (cellsOf (filter (\<lambda>d. keyOf d = code) data))
        = length (filter (\<lambda>d. keyOf d = code) data)"
      using all[of "filter (\<lambda>d. keyOf d = code) data"]
      by (simp add: gridTotal_cellsOf del: filter_filter)
    from plain obtain m where m: "calculateFrequencies data = Inr m"
      by (simp add: calculateFrequencies_plain)
    from calculateFrequencies_code[OF plain m code] f t m show ?thesis
      by simp
  qed
  ultimately show ?thesis by blast
qed

theorem grid_total_on_grid_witness:
  "(\<exists>cells. frequencyData None
        [sampleRow (JStr ''3.00 - 3.49'') ''year 2'' ''Yes'' ''No'' ''yes'' ''No'',
         sampleRow (JStr ''0 - 1.99'') ''year 1'' ''No'' ''No'' ''No'' ''No''] = Inr cells
      \<and> gridTotal cells = 2)
   \<and> (\<exists>cells m. frequencyData (Some ''101'')
        [sampleRow (JStr ''3.00 - 3.49'') ''year 2'' ''Yes'' ''No'' ''yes'' ''No'',
         sampleRow (JStr ''0 - 1.99'') ''year 1'' ''No'' ''No'' ''No'' ''No''] = Inr cells
      \<and> calculateFrequencies
        [sampleRow (JStr ''3.00 - 3.49'') ''year 2'' ''Yes'' ''No'' ''yes'' ''No'',
         sampleRow (JStr ''0 - 1.99'') ''year 1'' ''No'' ''No'' ''No'' ''No''] = Inr m
      \<and> m ''101'' = Some (Fin (of_nat (gridTotal cells))))"
  using grid_total_on_grid
    [of "[sampleRow (JStr ''3.00 - 3.49'') ''year 2'' ''Yes'' ''No'' ''yes'' ''No'',
          sampleRow (JStr ''0 - 1.99'') ''year 1'' ''No'' ''No'' ''No'' ''No'']" "''101''"]
  by (simp add: onGrid_sampleRow plain_sampleRow cgpaRanges_def yearsOfStudy_def
      regionCodes_def numeral_2_eq_2)

text \<open>
  C10. The five CGPA labels are distinct and so are the four year labels, the grid has
  one cell for each of the twenty pairs of labels, and a cell counts the records whose
  CGPA and year cells equal its two labels; so every record matches at most one of the
  twenty cells. The grid is returned whenever no region is active or
  the condition cells are strings, \<^verbatim>\<open>null\<close> or absent, and whenever it is returned its
  total count is the number of filtered records that lie on the grid, which is at most
  the number of filtered records, itself at most the number of records.
\<close>

theorem grid_cells_disjoint:
  "distinct cgpaRanges \<and> distinct yearsOfStudy \<and> length (cellsOf rows) = 20
   \<and> length (filter (\<lambda>cell. inCell (cgpa cell) (year cell) d) (cellsOf rows)) \<le> 1
   \<and> (sel = None \<or> sel = Some [] \<or> (\<forall>d \<in> set data. plainRow d) \<longrightarrow>
        (\<exists>cells. frequencyData sel data = Inr cells))
   \<and> (\<forall>cells. frequencyData sel data = Inr cells \<longrightarrow>
        (\<exists>filtered. filteredData sel data = Inr filtered
           \<and> gridTotal cells = length (filter onGrid filtered)
           \<and> gridTotal cells \<le> length filtered \<and> length filtered \<le> length data))"
proof -
  have ret: "\<exists>cells. frequencyData sel data = Inr cells"
    if "sel = None \<or> sel = Some [] \<or> (\<forall>d \<in> set data. plainRow d)"
  proof -
    from that consider "sel = None \<or> sel = Some []" | "\<forall>d \<in> set data. plainRow d"
      by blast
    then show ?thesis
    proof cases
      case 1
      then show ?thesis by (auto simp: frequencyData_def filteredData_def)
    next
      case 2
      then show ?thesis by (simp add: frequencyData_def filteredData_plain)
    qed
  qed
  have tot: "\<exists>filtered. filteredData sel data = Inr filtered
           \<and> gridTotal cells = length (filter onGrid filtered)
           \<and> gridTotal cells \<le> length filtered \<and> length filtered \<le> length data"
    if c: "frequencyData sel data = Inr cells" for cells
  proof -
    from c obtain filtered where f: "filteredData sel data = Inr filtered"
      and cells: "cells = cellsOf filtered"
      by (auto simp: frequencyData_def split: sum.splits)
    have "length filtered \<le> length data"
      using filteredData_Inr[OF f] by (auto split: option.splits)
    with f cells show ?thesis
      by (simp add: gridTotal_cellsOf)
  qed
  have "length (filter (\<lambda>cell. inCell (cgpa cell) (year cell) d) (cellsOf rows)) \<le> 1"
    by (simp add: cells_matching_row)
  moreover have "distinct cgpaRanges" "distinct yearsOfStudy" "length (cellsOf rows) = 20"
    by (simp_all add: cellsOf_def cgpaRanges_def yearsOfStudy_def)
  ultimately show ?thesis
    using ret tot by blast
qed

theorem grid_cells_disjoint_witness:
  "\<exists>cells. frequencyData (Some ''101'')
        [sampleRow (JStr ''3.00 - 3.49'') ''year 2'' ''Yes'' ''No'' ''yes'' ''No'',
         sampleRow (JStr ''N/A'') ''year 1'' ''Yes'' ''No'' ''Yes'' ''No'',
         sampleRow (JStr ''0 - 1.99'') ''year 1'' ''No'' ''No'' ''No'' ''No''] = Inr cells
      \<and> gridTotal cells \<le> 3"
proof -
  let ?data = "[sampleRow (JStr ''3.00 - 3.49'') ''year 2'' ''Yes'' ''No'' ''yes'' ''No'',
         sampleRow (JStr ''N/A'') ''year 1'' ''Yes'' ''No'' ''Yes'' ''No'',
         sampleRow (JStr ''0 - 1.99'') ''year 1'' ''No'' ''No'' ''No'' ''No'']"
  have p: "\<forall>d \<in> set ?data. plainRow d"
    by (simp add: plain_sampleRow)
  from grid_cells_disjoint
      [where d = "sampleRow (JStr ''N/A'') ''year 1'' ''Yes'' ''No'' ''Yes'' ''No''"
        and rows = ?data and sel = "Some ''101''" and data = ?data] p
  obtain cells where c: "frequencyData (Some ''101'') ?data = Inr cells"
    by blast
  with grid_cells_disjoint
      [where d = "sampleRow (JStr ''N/A'') ''year 1'' ''Yes'' ''No'' ''Yes'' ''No''"
        and rows = ?data and sel = "Some ''101''" and data = ?data]
  have "gridTotal cells \<le> length ?data"
    by (meson le_trans)
  with c show ?thesis by auto
qed

text \<open>
  C7. For a record collection and any permutation of it, \<open>calculateFrequencies\<close> gives
  the same result (the same map of counts, or the same exception), and so does the
  frequency grid under the same active region.
\<close>

theorem aggregation_order_insensitive:
  assumes "mset data = mset data'"
  shows "calculateFrequencies data = calculateFrequencies data'
     \<and> frequencyData sel data = frequencyData sel data'"
proof -
  from assms have s: "set data = set data'"
    by (rule mset_eq_setD)
  have rows: "cellsOf (filter P data) = cellsOf (filter P data')" for P
    using assms by (intro cellsOf_mset) (metis mset_filter)
  show ?thesis
  proof (cases "\<forall>d \<in> set data. plainRow d")
    case True
    with s have p': "\<forall>d \<in> set data'. plainRow d"
      by simp
    have "fold (\<lambda>d. increment (keyOf d)) data = fold (\<lambda>d. increment (keyOf d)) data'"
      using assms by (intro fold_multiset_equiv) (simp_all add: increment_commute)
    with True p' have "calculateFrequencies data = calculateFrequencies data'"
      by (simp add: calculateFrequencies_plain)
    moreover from True p' have "frequencyData sel data = frequencyData sel data'"
      by (simp add: frequencyData_def filteredData_plain rows cellsOf_mset[OF assms]
          split: option.split)
    ultimately show ?thesis by simp
  next
    case False
    with s have n': "\<exists>d \<in> set data'. \<not> plainRow d"
      by simp
    from False have n: "\<exists>d \<in> set data. \<not> plainRow d"
      by simp
    have "calculateFrequencies data = calculateFrequencies data'"
      by (simp add: calculateFrequencies_not_plain n n')
    moreover have "frequencyData sel data = frequencyData sel data'"
      by (simp add: frequencyData_def filteredData_def filterRegion_not_plain n n'
          cellsOf_mset[OF assms] split: option.split)
    ultimately show ?thesis by simp
  qed
qed

theorem aggregation_order_insensitive_witness:
  "calculateFrequencies
      [sampleRow (JStr ''3.00 - 3.49'') ''year 2'' ''Yes'' ''No'' ''yes'' ''No'',
       sampleRow (JStr ''0 - 1.99'') ''year 1'' ''No'' ''No'' ''No'' ''No'']
   = calculateFrequencies
      [sampleRow (JStr ''0 - 1.99'') ''year 1'' ''No'' ''No'' ''No'' ''No'',
       sampleRow (JStr ''3.00 - 3.49'') ''year 2'' ''Yes'' ''No'' ''yes'' ''No'']
   \<and> frequencyData (Some ''101'')
      [sampleRow (JStr ''3.00 - 3.49'') ''year 2'' ''Yes'' ''No'' ''yes'' ''No'',
       sampleRow (JStr ''0 - 1.99'') ''year 1'' ''No'' ''No'' ''No'' ''No'']
   = frequencyData (Some ''101'')
      [sampleRow (JStr ''0 - 1.99'') ''year 1'' ''No'' ''No'' ''No'' ''No'',
       sampleRow (JStr ''3.00 - 3.49'') ''year 2'' ''Yes'' ''No'' ''yes'' ''No'']"
proof -
  have "mset [sampleRow (JStr ''3.00 - 3.49'') ''year 2'' ''Yes'' ''No'' ''yes'' ''No'',
       sampleRow (JStr ''0 - 1.99'') ''year 1'' ''No'' ''No'' ''No'' ''No'']
     = mset [sampleRow (JStr ''0 - 1.99'') ''year 1'' ''No'' ''No'' ''No'' ''No'',
       sampleRow (JStr ''3.00 - 3.49'') ''year 2'' ''Yes'' ''No'' ''yes'' ''No'']"
    by (simp add: add_mset_commute)
  then show ?thesis
    by (rule aggregation_order_insensitive)
qed

section \<open>The two readings of a yes\<close>

lemma lower_char_eq:
  assumes "97 \<le> (of_char t :: nat)" "(of_char t :: nat) \<le> 122"
  shows "(lower_char c = t) = (c = t \<or> of_char c + 32 = (of_char t :: nat))"
proof -
  have n: "(of_char c :: nat) < 256"
    by simp
  have e: "(char_of (of_char c + (32::nat)) = t) = ((of_char c :: nat) + 32 = of_char t)"
    if "(of_char c :: nat) \<le> 90"
  proof -
    have "(char_of (of_char c + (32::nat)) = t) = ((of_char (char_of (of_char c + (32::nat)) :: char) :: nat) = of_char t)"
      by (simp only: of_char_eq_iff)
    also have "\<dots> = ((of_char c + 32) mod 256 = (of_char t :: nat))"
      by (simp only: of_char_of)
    also have "\<dots> = ((of_char c :: nat) + 32 = of_char t)"
      using that by simp
    finally show ?thesis .
  qed
  show ?thesis
  proof (cases "65 \<le> (of_char c :: nat) \<and> (of_char c :: nat) \<le> 90")
    case True
    then have "c \<noteq> t" using assms by auto
    with True e show ?thesis by (simp add: lower_char_def Let_def)
  next
    case False
    then have "(of_char c :: nat) + 32 \<noteq> of_char t \<or> c = t"
      using assms by (auto)
    with False show ?thesis
      by (auto simp: lower_char_def Let_def)
  qed
qed

lemma of_char_upper:
  "((of_char c :: nat) = 89) = (c = CHR ''Y'')" "((of_char c :: nat) = 69) = (c = CHR ''E'')"
  "((of_char c :: nat) = 83) = (c = CHR ''S'')"
proof -
  have "(89::nat) = of_char (CHR ''Y'')" "(69::nat) = of_char (CHR ''E'')"
    "(83::nat) = of_char (CHR ''S'')"
    by simp_all
  then show "((of_char c :: nat) = 89) = (c = CHR ''Y'')" "((of_char c :: nat) = 69) = (c = CHR ''E'')"
    "((of_char c :: nat) = 83) = (c = CHR ''S'')"
    by (simp_all only: of_char_eq_iff)
qed

lemma lower_char_yes:
  "(lower_char c = CHR ''y'') = (c = CHR ''y'' \<or> c = CHR ''Y'')"
  "(lower_char c = CHR ''e'') = (c = CHR ''e'' \<or> c = CHR ''E'')"
  "(lower_char c = CHR ''s'') = (c = CHR ''s'' \<or> c = CHR ''S'')"
  by (simp_all add: lower_char_eq of_char_upper)

lemma toLowerCase_yes:
  "(toLowerCase s = ''yes'') = (s \<in> set yesSpellings)"
proof
  assume "toLowerCase s = ''yes''"
  then obtain a b c where s: "s = [a, b, c]" and "lower_char a = CHR ''y''"
    "lower_char b = CHR ''e''" "lower_char c = CHR ''s''"
    by (auto simp: toLowerCase_def map_eq_Cons_conv)
  then have "(a = CHR ''y'' \<or> a = CHR ''Y'')" "(b = CHR ''e'' \<or> b = CHR ''E'')"
    "(c = CHR ''s'' \<or> c = CHR ''S'')"
    by (simp_all only: lower_char_yes)
  with s show "s \<in> set yesSpellings"
    by (auto simp: yesSpellings_def)
next
  assume "s \<in> set yesSpellings"
  then show "toLowerCase s = ''yes''"
    by (auto simp: yesSpellings_def toLowerCase_def lower_char_yes)
qed

lemma conditionNodeName_Yes:
  "(conditionNodeName c d = c @ '' Yes'') = (d (conditionColumn c) = Some (JStr ''Yes''))"
  by (simp add: conditionNodeName_def)

lemma isYes_spelling: "(isYes (Some (JStr s)) = Inr True) = (s \<in> set yesSpellings)"
  by (simp add: toLowerCase_yes)

lemma regionKey_returns:
  assumes "plainCell (d ''Do you have Depression?'')" "plainCell (d ''Do you have Anxiety?'')"
    "plainCell (d ''Do you have Panic attack?'')"
  shows "\<exists>k. regionKey d = Inr k"
  using regionKey_plain[of d] assms by (auto simp: plainRow_def)

lemma plainCell_string: "plainCell (Some (JStr s))"
  by (simp add: plainCell_def)

text \<open>
  C9. The region classifier lowers the cell before it compares it with \<^verbatim>\<open>'yes'\<close>, so its
  test holds for a string cell exactly when the cell is one of the eight spellings of
  \<^verbatim>\<open>yes\<close> in upper-case and lower-case letters; the flow graph builder compares the cell
  with \<^verbatim>\<open>'Yes'\<close> as it is, so it derives the node \<^verbatim>\<open>'{condition} Yes'\<close> exactly when the cell
  is the string \<^verbatim>\<open>'Yes'\<close>. For every record whose cell of a condition holds one of the
  eight spellings, \<^verbatim>\<open>'yes'\<close> among them, every region key of the record has the digit
  \<^verbatim>\<open>'1'\<close> for that condition, and a region key is returned when the cells of the other
  two conditions are strings, \<^verbatim>\<open>null\<close> or absent; and when the spelling is not \<^verbatim>\<open>'Yes'\<close>,
  as with \<^verbatim>\<open>'yes'\<close>, the builder derives the node \<^verbatim>\<open>'{condition} No'\<close>.
\<close>

theorem yes_case_sensitivity:
  "(isYes (Some (JStr s)) = Inr True) = (s \<in> set yesSpellings)
   \<and> (conditionNodeName c d = c @ '' Yes'') = (d (conditionColumn c) = Some (JStr ''Yes''))
   \<and> (d (conditionColumn ''Depression'') = Some (JStr s) \<and> s \<in> set yesSpellings \<longrightarrow>
        (\<forall>k. regionKey d = Inr k \<longrightarrow> k ! 0 = CHR ''1'')
        \<and> (plainCell (d (conditionColumn ''Anxiety''))
             \<and> plainCell (d (conditionColumn ''Panic attack'')) \<longrightarrow> (\<exists>k. regionKey d = Inr k))
        \<and> (s \<noteq> ''Yes'' \<longrightarrow> conditionNodeName ''Depression'' d = ''Depression No''))
   \<and> (d (conditionColumn ''Anxiety'') = Some (JStr s) \<and> s \<in> set yesSpellings \<longrightarrow>
        (\<forall>k. regionKey d = Inr k \<longrightarrow> k ! 1 = CHR ''1'')
        \<and> (plainCell (d (conditionColumn ''Depression''))
             \<and> plainCell (d (conditionColumn ''Panic attack'')) \<longrightarrow> (\<exists>k. regionKey d = Inr k))
        \<and> (s \<noteq> ''Yes'' \<longrightarrow> conditionNodeName ''Anxiety'' d = ''Anxiety No''))
   \<and> (d (conditionColumn ''Panic attack'') = Some (JStr s) \<and> s \<in> set yesSpellings \<longrightarrow>
        (\<forall>k. regionKey d = Inr k \<longrightarrow> k ! 2 = CHR ''1'')
        \<and> (plainCell (d (conditionColumn ''Depression''))
             \<and> plainCell (d (conditionColumn ''Anxiety'')) \<longrightarrow> (\<exists>k. regionKey d = Inr k))
        \<and> (s \<noteq> ''Yes'' \<longrightarrow> conditionNodeName ''Panic attack'' d = ''Panic attack No''))"
proof -
  have cols: "conditionColumn ''Depression'' = ''Do you have Depression?''"
    "conditionColumn ''Anxiety'' = ''Do you have Anxiety?''"
    "conditionColumn ''Panic attack'' = ''Do you have Panic attack?''"
    by (simp_all add: conditionColumn_def)
  have no: "conditionNodeName c' d = c' @ '' No''"
    if "d (conditionColumn c') = Some (JStr s)" "s \<noteq> ''Yes''" for c'
    using that by (simp add: conditionNodeName_def)
  have 1: "(\<forall>k. regionKey d = Inr k \<longrightarrow> k ! 0 = CHR ''1'')
        \<and> (plainCell (d (conditionColumn ''Anxiety''))
             \<and> plainCell (d (conditionColumn ''Panic attack'')) \<longrightarrow> (\<exists>k. regionKey d = Inr k))
        \<and> (s \<noteq> ''Yes'' \<longrightarrow> conditionNodeName ''Depression'' d = ''Depression No'')"
    if c: "d (conditionColumn ''Depression'') = Some (JStr s)" and y: "s \<in> set yesSpellings"
  proof -
    from c y have t: "isYes (d ''Do you have Depression?'') = Inr True"
      by (simp add: cols isYes_spelling del: isYes.simps)
    have "k ! 0 = CHR ''1''" if "regionKey d = Inr k" for k
      using regionKey_digits[OF that] t by simp
    moreover have "\<exists>k. regionKey d = Inr k"
      if "plainCell (d (conditionColumn ''Anxiety''))" "plainCell (d (conditionColumn ''Panic attack''))"
      using that c by (intro regionKey_returns) (simp_all add: cols plainCell_string)
    ultimately show ?thesis
      using no[OF c] by auto
  qed
  have 2: "(\<forall>k. regionKey d = Inr k \<longrightarrow> k ! 1 = CHR ''1'')
        \<and> (plainCell (d (conditionColumn ''Depression''))
             \<and> plainCell (d (conditionColumn ''Panic attack'')) \<longrightarrow> (\<exists>k. regionKey d = Inr k))
        \<and> (s \<noteq> ''Yes'' \<longrightarrow> conditionNodeName ''Anxiety'' d = ''Anxiety No'')"
    if c: "d (conditionColumn ''Anxiety'') = Some (JStr s)" and y: "s \<in> set yesSpellings"
  proof -
    from c y have t: "isYes (d ''Do you have Anxiety?'') = Inr True"
      by (simp add: cols isYes_spelling del: isYes.simps)
    have "k ! 1 = CHR ''1''" if "regionKey d = Inr k" for k
      using regionKey_digits[OF that] t by simp
    moreover have "\<exists>k. regionKey d = Inr k"
      if "plainCell (d (conditionColumn ''Depression''))" "plainCell (d (conditionColumn ''Panic attack''))"
      using that c by (intro regionKey_returns) (simp_all add: cols plainCell_string)
    ultimately show ?thesis
      using no[OF c] by auto
  qed
  have 3: "(\<forall>k. regionKey d = Inr k \<longrightarrow> k ! 2 = CHR ''1'')
        \<and> (plainCell (d (conditionColumn ''Depression''))
             \<and> plainCell (d (conditionColumn ''Anxiety'')) \<longrightarrow> (\<exists>k. regionKey d = Inr k))
        \<and> (s \<noteq> ''Yes'' \<longrightarrow> conditionNodeName ''Panic attack'' d = ''Panic attack No'')"
    if c: "d (conditionColumn ''Panic attack'') = Some (JStr s)" and y: "s \<in> set yesSpellings"
  proof -
    from c y have t: "isYes (d ''Do you have Panic attack?'') = Inr True"
      by (simp add: cols isYes_spelling del: isYes.simps)
    have "k ! 2 = CHR ''1''" if "regionKey d = Inr k" for k
      using regionKey_digits[OF that] t by simp
    moreover have "\<exists>k. regionKey d = Inr k"
      if "plainCell (d (conditionColumn ''Depression''))" "plainCell (d (conditionColumn ''Anxiety''))"
      using that c by (intro regionKey_returns) (simp_all add: cols plainCell_string)
    ultimately show ?thesis
      using no[OF c] by auto
  qed
  from 1 2 3 isYes_spelling[of s] conditionNodeName_Yes[of c d] show ?thesis
    by blast
qed

theorem yes_case_sensitivity_witness:
  "\<exists>k. regionKey (sampleRow (JStr ''3.00 - 3.49'') ''year 2'' ''yes'' ''YES'' ''yEs'' ''No'') = Inr k
     \<and> k ! 0 = CHR ''1'' \<and> k ! 1 = CHR ''1'' \<and> k ! 2 = CHR ''1''
     \<and> conditionNodeName ''Depression''
          (sampleRow (JStr ''3.00 - 3.49'') ''year 2'' ''yes'' ''YES'' ''yEs'' ''No'') = ''Depression No''
     \<and> conditionNodeName ''Anxiety''
          (sampleRow (JStr ''3.00 - 3.49'') ''year 2'' ''yes'' ''YES'' ''yEs'' ''No'') = ''Anxiety No''
     \<and> conditionNodeName ''Panic attack''
          (sampleRow (JStr ''3.00 - 3.49'') ''year 2'' ''yes'' ''YES'' ''yEs'' ''No'') = ''Panic attack No''"
proof -
  let ?d = "sampleRow (JStr ''3.00 - 3.49'') ''year 2'' ''yes'' ''YES'' ''yEs'' ''No''"
  have cells: "?d (conditionColumn ''Depression'') = Some (JStr ''yes'')"
    "?d (conditionColumn ''Anxiety'') = Some (JStr ''YES'')"
    "?d (conditionColumn ''Panic attack'') = Some (JStr ''yEs'')"
    by (simp_all add: sampleRow_def conditionColumn_def cgpaColumn_def yearColumn_def
        treatmentColumn_def)
  have sp: "''yes'' \<in> set yesSpellings" "''YES'' \<in> set yesSpellings" "''yEs'' \<in> set yesSpellings"
    by (simp_all add: yesSpellings_def)
  from yes_case_sensitivity[of "''yes''" "''Depression''" ?d] cells sp(1)
  have a: "\<forall>k. regionKey ?d = Inr k \<longrightarrow> k ! 0 = CHR ''1''" "\<exists>k. regionKey ?d = Inr k"
    "conditionNodeName ''Depression'' ?d = ''Depression No''"
    by (simp_all add: plainCell_string)
  from yes_case_sensitivity[of "''YES''" "''Depression''" ?d] cells sp(2)
  have b: "\<forall>k. regionKey ?d = Inr k \<longrightarrow> k ! 1 = CHR ''1''"
    "conditionNodeName ''Anxiety'' ?d = ''Anxiety No''"
    by simp_all
  from yes_case_sensitivity[of "''yEs''" "''Depression''" ?d] cells sp(3)
  have c: "\<forall>k. regionKey ?d = Inr k \<longrightarrow> k ! 2 = CHR ''1''"
    "conditionNodeName ''Panic attack'' ?d = ''Panic attack No''"
    by simp_all
  from a b c show ?thesis
    by blast
qed

section \<open>Properties of the selection state\<close>

lemma handleEvent_valid: "validState st \<Longrightarrow> uiEvent e \<Longrightarrow> validState (handleEvent st e)"
  by (cases e) (simp_all add: validState_def)

lemma runEvents_valid:
  "validState st \<Longrightarrow> \<forall>e \<in> set evs. uiEvent e \<Longrightarrow> validState (runEvents st evs)"
  unfolding runEvents_def
  by (induction evs arbitrary: st) (simp_all add: handleEvent_valid)

lemma validState_initial: "validState initialLayout"
  by (simp add: validState_def initialLayout_def conditionOptions_def)

text \<open>
  C8, as stated, at the region code \<^verbatim>\<open>'abc'\<close> and at the condition \<^verbatim>\<open>'Stress'\<close>: neither
  is in its enumeration, and each is stored, so the prior state is not retained.
\<close>

theorem invalid_selection_counterexample:
  "''abc'' \<notin> set regionCodes
   \<and> selectedRegion (handleEvent initialLayout (RegionClick ''abc'')) = Some ''abc''
   \<and> handleEvent initialLayout (RegionClick ''abc'') \<noteq> initialLayout
   \<and> ''Stress'' \<notin> set conditionOptions
   \<and> selectedCondition (handleEvent initialLayout (ConditionChange ''Stress'')) = ''Stress''
   \<and> handleEvent initialLayout (ConditionChange ''Stress'') \<noteq> initialLayout"
  by (simp add: regionCodes_def conditionOptions_def initialLayout_def)

text \<open>
  C8, amended. No selection input is rejected: a click stores the region code it is
  given, the reset stores \<^verbatim>\<open>null\<close>, the picker stores the condition it is given, whatever
  the value, and each leaves the other field as it was. The stored values are valid as
  long as the inputs are those of the page's own controls: one of the seven codes of the
  hit targets, the reset, one of the three options of the picker.
\<close>

theorem selection_never_rejected:
  "selectedRegion (handleEvent st (RegionClick r)) = Some r
   \<and> selectedCondition (handleEvent st (RegionClick r)) = selectedCondition st
   \<and> selectedRegion (handleEvent st Reset) = None
   \<and> selectedCondition (handleEvent st Reset) = selectedCondition st
   \<and> selectedCondition (handleEvent st (ConditionChange v)) = v
   \<and> selectedRegion (handleEvent st (ConditionChange v)) = selectedRegion st
   \<and> ((\<forall>e \<in> set evs. uiEvent e) \<longrightarrow> validState (runEvents initialLayout evs))"
proof -
  have "(\<forall>e \<in> set evs. uiEvent e) \<longrightarrow> validState (runEvents initialLayout evs)"
    by (simp add: runEvents_valid validState_initial)
  then show ?thesis
    by simp
qed

theorem selection_never_rejected_witness:
  "validState (runEvents initialLayout [RegionClick ''101'', ConditionChange ''Anxiety'', Reset])"
  using selection_never_rejected
    [of initialLayout "''101''" "''Anxiety''"
      "[RegionClick ''101'', ConditionChange ''Anxiety'', Reset]"]
  by (simp add: regionCodes_def conditionOptions_def)

section \<open>Properties of the flow graph builder\<close>

subsection \<open>Link keys\<close>

lemma getCgpabin_values: "getCgpabin x \<in> set (cgpaBinLabels @ [''Unknown''])"
  by (simp add: getCgpabin_def cgpaBinLabels_def)

lemma conditionNodeName_values: "conditionNodeName sc d \<in> {sc @ '' Yes'', sc @ '' No''}"
  by (simp add: conditionNodeName_def)

lemma treatmentNodeName_values: "treatmentNodeName d \<in> {''Treatment Yes'', ''Treatment No''}"
  by (simp add: treatmentNodeName_def)

lemma cgpaRangeOf_values: "cgpaRangeOf d \<in> set (cgpaBinLabels @ [''Unknown''])"
  unfolding cgpaRangeOf_def by (rule getCgpabin_values)

lemma rowPairs_derivable: "p \<in> set (rowPairs sc d) \<Longrightarrow> derivable sc p"
  using conditionNodeName_values[of sc d] treatmentNodeName_values[of d] cgpaRangeOf_values[of d]
  unfolding rowPairs_def derivable_def by auto

lemma allPairs_derivable: "p \<in> set (allPairs sc data) \<Longrightarrow> derivable sc p"
  by (auto simp: allPairs_def dest: rowPairs_derivable)

lemma split_at_first:
  "x \<notin> set xs \<Longrightarrow> x \<notin> set xs' \<Longrightarrow> xs @ x # ys = xs' @ x # ys' \<Longrightarrow> xs = xs' \<and> ys = ys'"
proof (induction xs arbitrary: xs')
  case Nil
  then show ?case by (cases xs') auto
next
  case (Cons c cs)
  then show ?case by (cases xs') auto
qed

lemma bin_name_shape:
  "g \<in> set (cgpaBinLabels @ [''Unknown'']) \<Longrightarrow> length g \<le> 8 \<and> CHR ''>'' \<notin> set g"
  by (auto simp: cgpaBinLabels_def)

lemma pairKey_inj:
  assumes "derivable sc p" "derivable sc q" "pairKey p = pairKey q"
  shows "p = q"
proof -
  obtain a b where p: "p = (a, b)" by (cases p)
  obtain a' b' where q: "q = (a', b')" by (cases q)
  from assms(3) have k: "a @ ''->'' @ b = a' @ ''->'' @ b'"
    by (simp add: p q pairKey_def)
  then have len: "length a + length b = length a' + length b'"
    by (drule_tac arg_cong[where f=length]) simp
  from assms(1) consider
      (bin) "a \<in> set (cgpaBinLabels @ [''Unknown''])" "b \<in> {sc @ '' Yes'', sc @ '' No''}"
    | (status) "a \<in> {sc @ '' Yes'', sc @ '' No''}" "b \<in> {''Treatment Yes'', ''Treatment No''}"
    unfolding derivable_def p by auto
  then show ?thesis
  proof cases
    case bin
    from assms(2) consider
        (bin') "a' \<in> set (cgpaBinLabels @ [''Unknown''])" "b' \<in> {sc @ '' Yes'', sc @ '' No''}"
      | (status') "a' \<in> {sc @ '' Yes'', sc @ '' No''}" "b' \<in> {''Treatment Yes'', ''Treatment No''}"
      unfolding derivable_def q by auto
    then show ?thesis
    proof cases
      case bin'
      have "(a @ ''-'') @ CHR ''>'' # b = (a' @ ''-'') @ CHR ''>'' # b'"
        using k by simp
      moreover have "CHR ''>'' \<notin> set (a @ ''-'')" "CHR ''>'' \<notin> set (a' @ ''-'')"
        using bin_name_shape[OF bin(1)] bin_name_shape[OF bin'(1)] by simp_all
      ultimately have "a @ ''-'' = a' @ ''-'' \<and> b = b'"
        by (intro split_at_first[where x = "CHR ''>''"])
      then show ?thesis by (simp add: p q)
    next
      case status'
      from bin(2) have "length b \<le> length sc + 4" by auto
      moreover from status' have "length sc + 3 \<le> length a'" "12 \<le> length b'" by auto
      ultimately show ?thesis
        using len bin_name_shape[OF bin(1)] by simp
    qed
  next
    case status
    from assms(2) consider
        (bin') "a' \<in> set (cgpaBinLabels @ [''Unknown''])" "b' \<in> {sc @ '' Yes'', sc @ '' No''}"
      | (status') "a' \<in> {sc @ '' Yes'', sc @ '' No''}" "b' \<in> {''Treatment Yes'', ''Treatment No''}"
      unfolding derivable_def q by auto
    then show ?thesis
    proof cases
      case bin'
      from bin'(2) have "length b' \<le> length sc + 4" by auto
      moreover from status have "length sc + 3 \<le> length a" "12 \<le> length b" by auto
      ultimately show ?thesis
        using len bin_name_shape[OF bin'(1)] by simp
    next
      case status'
      with status k show ?thesis
        by (auto simp: p q)
    qed
  qed
qed

subsection \<open>The link map\<close>

lemma bumpLink_map:
  "distinct (map fst lm) \<Longrightarrow>
   bumpLink k lm = map (\<lambda>(k', l). if k' = k then (k', l\<lparr>value' := value' l + 1\<rparr>) else (k', l)) lm"
proof (induction lm)
  case Nil
  then show ?case by simp
next
  case (Cons e lm)
  obtain k' l where e: "e = (k', l)" by (cases e)
  show ?case
  proof (cases "k' = k")
    case True
    with Cons.prems e have "k \<notin> fst ` set lm" by simp
    then have "map (\<lambda>(k', l). if k' = k then (k', l\<lparr>value' := value' l + 1\<rparr>) else (k', l)) lm = lm"
      by (intro map_idI) (auto simp: image_iff)
    with True e show ?thesis by simp
  next
    case False
    with Cons e show ?thesis by simp
  qed
qed

lemma linkPair_bump [simp]: "linkPair (l\<lparr>value' := v\<rparr>) = linkPair l"
  by (simp add: linkPair_def)

lemma linkKey_pairKey: "linkKey s t = pairKey (name s, name t)"
  by (simp add: linkKey_def pairKey_def)

lemma count_list_snoc: "count_list (ps @ [p]) q = count_list ps q + (if p = q then 1 else 0)"
  by (induction ps) simp_all

lemma records_empty: "records [] []"
  by (simp add: records_def)

lemma records_addLink:
  assumes r: "records lm ps"
    and d: "\<forall>q \<in> set ps. derivable sc q" "derivable sc (name s, name t)"
  shows "records (addLink s t lm) (ps @ [(name s, name t)])"
proof -
  let ?p = "(name s, name t)"
  let ?k = "pairKey ?p"
  from r have dist: "distinct (map fst lm)"
    and ent: "\<And>k l. (k, l) \<in> set lm \<Longrightarrow>
        k = pairKey (linkPair l) \<and> linkPair l \<in> set ps \<and> value' l = count_list ps (linkPair l)"
    and all: "\<And>q. q \<in> set ps \<Longrightarrow> pairKey q \<in> fst ` set lm"
    unfolding records_def by auto
  have same: "linkPair l = ?p" if "(?k, l) \<in> set lm" for l
  proof -
    from ent[OF that] have "pairKey (linkPair l) = pairKey ?p" "derivable sc (linkPair l)"
      using d(1) by auto
    with d(2) show ?thesis by (auto dest: pairKey_inj)
  qed
  have other: "linkPair l \<noteq> ?p" if "(k, l) \<in> set lm" "k \<noteq> ?k" for k l
    using ent[OF that(1)] that(2) by auto
  show ?thesis
  proof (cases "map_of lm ?k = None")
    case False
    then have a: "addLink s t lm
        = map (\<lambda>(k', l). if k' = ?k then (k', l\<lparr>value' := value' l + 1\<rparr>) else (k', l)) lm"
      by (simp add: addLink_def linkKey_pairKey bumpLink_map[OF dist])
    have keys: "map fst (addLink s t lm) = map fst lm"
      unfolding a by (induction lm) (auto split: prod.splits)
    have e1: "k = pairKey (linkPair l) \<and> linkPair l \<in> set (ps @ [?p])
          \<and> value' l = count_list (ps @ [?p]) (linkPair l)"
      if "(k, l) \<in> set (addLink s t lm)" for k l
    proof -
      from that obtain l0 where l0: "(k, l0) \<in> set lm"
        and l: "l = (if k = ?k then l0\<lparr>value' := value' l0 + 1\<rparr> else l0)"
        unfolding a by (auto split: if_splits)
      show ?thesis
      proof (cases "k = ?k")
        case True
        with l0 same have "linkPair l0 = ?p" by simp
        with ent[OF l0] l True show ?thesis
          by (simp add: count_list_snoc)
      next
        case False
        with other[OF l0] ent[OF l0] l show ?thesis
          by (simp add: count_list_snoc)
      qed
    qed
    from False have "?k \<in> fst ` set lm"
      by (simp add: map_of_eq_None_iff)
    with all have e2: "\<forall>q \<in> set (ps @ [?p]). pairKey q \<in> fst ` set (addLink s t lm)"
      using keys by (metis Un_iff empty_iff empty_set insert_iff list.set(2) list.set_map set_append)
    from e1 have e1': "\<forall>(k, l) \<in> set (addLink s t lm). k = pairKey (linkPair l)
          \<and> linkPair l \<in> set (ps @ [?p]) \<and> value' l = count_list (ps @ [?p]) (linkPair l)"
      by blast
    from dist keys have "distinct (map fst (addLink s t lm))"
      by simp
    with e1' e2 show ?thesis
      unfolding records_def by blast
  next
    case True
    then have a: "addLink s t lm = lm @ [(?k, \<lparr>source = s, target = t, value' = 1\<rparr>)]"
      by (simp add: addLink_def linkKey_pairKey)
    from True have nk: "?k \<notin> fst ` set lm"
      by (simp add: map_of_eq_None_iff)
    with all have np: "?p \<notin> set ps" by blast
    then have c0: "count_list ps ?p = 0"
      by (simp add: count_list_0_iff)
    have e1: "k = pairKey (linkPair l) \<and> linkPair l \<in> set (ps @ [?p])
          \<and> value' l = count_list (ps @ [?p]) (linkPair l)"
      if "(k, l) \<in> set (addLink s t lm)" for k l
    proof -
      from that consider "(k, l) \<in> set lm" | "k = ?k" "l = \<lparr>source = s, target = t, value' = 1\<rparr>"
        unfolding a by auto
      then show ?thesis
      proof cases
        case 1
        with ent[OF 1] np show ?thesis
          by (auto simp: count_list_snoc)
      next
        case 2
        with c0 show ?thesis
          by (simp add: linkPair_def count_list_snoc)
      qed
    qed
    have e2: "\<forall>q \<in> set (ps @ [?p]). pairKey q \<in> fst ` set (addLink s t lm)"
      unfolding a using all by auto
    from e1 have e1': "\<forall>(k, l) \<in> set (addLink s t lm). k = pairKey (linkPair l)
          \<and> linkPair l \<in> set (ps @ [?p]) \<and> value' l = count_list (ps @ [?p]) (linkPair l)"
      by blast
    from dist nk have "distinct (map fst (addLink s t lm))"
      unfolding a by simp
    with e1' e2 show ?thesis
      unfolding records_def by blast
  qed
qed

subsection \<open>The node registry and the whole build\<close>

lemma addNode_registry:
  assumes "registry st"
  shows "fst (addNode nm st) = \<lparr>name = nm\<rparr>"
    and "registry (snd (addNode nm st))"
    and "linkMap (snd (addNode nm st)) = linkMap st"
    and "set (nodes (snd (addNode nm st))) = insert \<lparr>name = nm\<rparr> (set (nodes st))"
  using assms by (auto simp: addNode_def registry_def Let_def split: option.splits if_splits)

lemma processRow_registry:
  assumes "registry st"
  shows "registry (processRow sc st d)"
    and "linkMap (processRow sc st d)
       = addLink \<lparr>name = conditionNodeName sc d\<rparr> \<lparr>name = treatmentNodeName d\<rparr>
           (addLink \<lparr>name = cgpaRangeOf d\<rparr> \<lparr>name = conditionNodeName sc d\<rparr> (linkMap st))"
    and "set (nodes (processRow sc st d)) = set (nodes st) \<union> (\<lambda>nm. \<lparr>name = nm\<rparr>) ` set (rowNames sc d)"
proof -
  let ?s1 = "snd (addNode (cgpaRangeOf d) st)"
  let ?s2 = "snd (addNode (conditionNodeName sc d) ?s1)"
  let ?s3 = "snd (addNode (treatmentNodeName d) ?s2)"
  have r1: "registry ?s1" using assms by (rule addNode_registry(2))
  then have r2: "registry ?s2" by (rule addNode_registry(2))
  then have r3: "registry ?s3" by (rule addNode_registry(2))
  have p: "processRow sc st d
      = ?s3\<lparr>linkMap := addLink \<lparr>name = conditionNodeName sc d\<rparr> \<lparr>name = treatmentNodeName d\<rparr>
           (addLink \<lparr>name = cgpaRangeOf d\<rparr> \<lparr>name = conditionNodeName sc d\<rparr> (linkMap st))\<rparr>"
    by (simp add: processRow_def Let_def case_prod_unfold addNode_registry(1)[OF assms]
        addNode_registry(1)[OF r1] addNode_registry(1)[OF r2] addNode_registry(3)[OF assms]
        addNode_registry(3)[OF r1] addNode_registry(3)[OF r2])
  from r3 show "registry (processRow sc st d)"
    unfolding p by (simp add: registry_def)
  show "linkMap (processRow sc st d)
       = addLink \<lparr>name = conditionNodeName sc d\<rparr> \<lparr>name = treatmentNodeName d\<rparr>
           (addLink \<lparr>name = cgpaRangeOf d\<rparr> \<lparr>name = conditionNodeName sc d\<rparr> (linkMap st))"
    unfolding p by simp
  show "set (nodes (processRow sc st d)) = set (nodes st) \<union> (\<lambda>nm. \<lparr>name = nm\<rparr>) ` set (rowNames sc d)"
    unfolding p
    by (auto simp: addNode_registry(4)[OF assms] addNode_registry(4)[OF r1]
        addNode_registry(4)[OF r2] rowNames_def)
qed

lemma buildState_snoc:
  "buildState sc (data @ [d]) = processRow sc (buildState sc data) d"
  by (simp add: buildState_def)

lemma allPairs_snoc:
  "allPairs sc (data @ [d])
   = (allPairs sc data @ [(cgpaRangeOf d, conditionNodeName sc d)])
       @ [(conditionNodeName sc d, treatmentNodeName d)]"
  by (simp add: allPairs_def rowPairs_def)

lemma buildState_invariant:
  "registry (buildState sc data)
   \<and> records (linkMap (buildState sc data)) (allPairs sc data)
   \<and> set (nodes (buildState sc data))
       = (\<lambda>nm. \<lparr>name = nm\<rparr>) ` (\<Union>d \<in> set data. set (rowNames sc d))"
proof (induction data rule: rev_induct)
  case Nil
  show ?case
    by (simp add: buildState_def emptyState_def registry_def records_empty allPairs_def)
next
  case (snoc d data)
  let ?st = "buildState sc data"
  let ?g = "cgpaRangeOf d" and ?c = "conditionNodeName sc d" and ?t = "treatmentNodeName d"
  from snoc have reg: "registry ?st" and rec: "records (linkMap ?st) (allPairs sc data)"
    and nd: "set (nodes ?st) = (\<lambda>nm. \<lparr>name = nm\<rparr>) ` (\<Union>d \<in> set data. set (rowNames sc d))"
    by simp_all
  have dg: "derivable sc (?g, ?c)" and dc: "derivable sc (?c, ?t)"
    by (rule rowPairs_derivable[of _ sc d], simp add: rowPairs_def)+
  have d0: "\<forall>q \<in> set (allPairs sc data). derivable sc q"
    by (simp add: allPairs_derivable)
  have rec1: "records (addLink \<lparr>name = ?g\<rparr> \<lparr>name = ?c\<rparr> (linkMap ?st)) (allPairs sc data @ [(?g, ?c)])"
    using records_addLink[OF rec d0, of "\<lparr>name = ?g\<rparr>" "\<lparr>name = ?c\<rparr>"] dg by simp
  have d1: "\<forall>q \<in> set (allPairs sc data @ [(?g, ?c)]). derivable sc q"
    using d0 dg by simp
  have rec2: "records (addLink \<lparr>name = ?c\<rparr> \<lparr>name = ?t\<rparr>
        (addLink \<lparr>name = ?g\<rparr> \<lparr>name = ?c\<rparr> (linkMap ?st)))
      ((allPairs sc data @ [(?g, ?c)]) @ [(?c, ?t)])"
    using records_addLink[OF rec1 d1, of "\<lparr>name = ?c\<rparr>" "\<lparr>name = ?t\<rparr>"] dc by simp
  have "set (nodes (buildState sc (data @ [d])))
      = (\<lambda>nm. \<lparr>name = nm\<rparr>) ` (\<Union>d \<in> set (data @ [d]). set (rowNames sc d))"
    unfolding buildState_snoc processRow_registry(3)[OF reg] nd by auto
  with rec2 processRow_registry(1)[OF reg, of sc d] show ?case
    unfolding buildState_snoc allPairs_snoc processRow_registry(2)[OF reg] by simp
qed

lemma distinct_count_list:
  "distinct xs \<Longrightarrow> count_list xs q = (if q \<in> set xs then 1 else 0)"
  by (induction xs) auto

lemma count_list_concat_map:
  "\<forall>x \<in> set xs. distinct (f x) \<Longrightarrow>
   count_list (concat (map f xs)) q = length (filter (\<lambda>x. q \<in> set (f x)) xs)"
proof (induction xs)
  case Nil
  then show ?case by simp
next
  case (Cons x xs)
  have "count_list (f x @ ys) q = count_list (f x) q + count_list ys q" for ys
    by (induction "f x" arbitrary: ys) (simp_all add: count_list_append)
  with Cons show ?case
    by (simp add: distinct_count_list)
qed

lemma bin_no_blank: "g \<in> set (cgpaBinLabels @ [''Unknown'']) \<Longrightarrow> CHR '' '' \<notin> set g"
  by (auto simp: cgpaBinLabels_def)

lemma cgpa_not_condition: "cgpaRangeOf d \<noteq> conditionNodeName sc d"
proof
  assume "cgpaRangeOf d = conditionNodeName sc d"
  then have "CHR '' '' \<in> set (cgpaRangeOf d)"
    by (simp add: conditionNodeName_def)
  with bin_no_blank[OF cgpaRangeOf_values] show False by blast
qed

lemma distinct_rowPairs: "distinct (rowPairs sc d)"
  by (simp add: rowPairs_def cgpa_not_condition)

lemma count_allPairs:
  "count_list (allPairs sc data) q = length (filter (\<lambda>d. q \<in> set (rowPairs sc d)) data)"
  unfolding allPairs_def by (rule count_list_concat_map) (simp add: distinct_rowPairs)

lemma sankeyLinks_pairs:
  "distinct (map linkPair (sankeyLinks sc data))"
  "l \<in> set (sankeyLinks sc data) \<Longrightarrow>
     linkPair l \<in> set (allPairs sc data) \<and> value' l = count_list (allPairs sc data) (linkPair l)"
  "set (map linkPair (sankeyLinks sc data)) = set (allPairs sc data)"
proof -
  let ?lm = "linkMap (buildState sc data)"
  from buildState_invariant[of sc data] have rec: "records ?lm (allPairs sc data)"
    by simp
  then have dist: "distinct (map fst ?lm)"
    and ent: "\<And>k l. (k, l) \<in> set ?lm \<Longrightarrow>
        k = pairKey (linkPair l) \<and> linkPair l \<in> set (allPairs sc data)
        \<and> value' l = count_list (allPairs sc data) (linkPair l)"
    and all: "\<And>q. q \<in> set (allPairs sc data) \<Longrightarrow> pairKey q \<in> fst ` set ?lm"
    unfolding records_def by auto
  have "map fst ?lm = map pairKey (map linkPair (map snd ?lm))"
    using ent by (auto simp: comp_def)
  with dist show "distinct (map linkPair (sankeyLinks sc data))"
    unfolding sankeyLinks_def by (metis distinct_map)
  show m: "linkPair l \<in> set (allPairs sc data) \<and> value' l = count_list (allPairs sc data) (linkPair l)"
    if "l \<in> set (sankeyLinks sc data)" for l
    using that ent unfolding sankeyLinks_def by auto
  show "set (map linkPair (sankeyLinks sc data)) = set (allPairs sc data)"
  proof (intro equalityI subsetI)
    fix q assume "q \<in> set (map linkPair (sankeyLinks sc data))"
    with m show "q \<in> set (allPairs sc data)" by auto
  next
    fix q assume q: "q \<in> set (allPairs sc data)"
    from all[OF q] obtain l where l: "(pairKey q, l) \<in> set ?lm"
      by force
    from ent[OF l] have "pairKey (linkPair l) = pairKey q" "derivable sc (linkPair l)"
      by (auto dest: allPairs_derivable)
    with q have "linkPair l = q"
      by (auto dest: pairKey_inj allPairs_derivable)
    with l show "q \<in> set (map linkPair (sankeyLinks sc data))"
      unfolding sankeyLinks_def by force
  qed
qed

subsection \<open>Edges and nodes of the flow graph\<close>

lemma sankeyNodes_names:
  "distinct (map name (sankeyNodes sc data))"
  "set (map name (sankeyNodes sc data)) = (\<Union>d \<in> set data. set (rowNames sc d))"
proof -
  from buildState_invariant[of sc data] have "distinct (nodes (buildState sc data))"
    and s: "set (nodes (buildState sc data))
       = (\<lambda>nm. \<lparr>name = nm\<rparr>) ` (\<Union>d \<in> set data. set (rowNames sc d))"
    by (simp_all add: registry_def)
  then show "distinct (map name (sankeyNodes sc data))"
    unfolding sankeyNodes_def by (simp add: distinct_map inj_on_def)
  show "set (map name (sankeyNodes sc data)) = (\<Union>d \<in> set data. set (rowNames sc d))"
    unfolding sankeyNodes_def using s by (simp add: image_image)
qed

lemma sankeyLinks_weight:
  assumes "l \<in> set (sankeyLinks sc data)"
  shows "1 \<le> value' l"
    and "value' l = length (filter (\<lambda>d. linkPair l \<in> set (rowPairs sc d)) data)"
proof -
  from sankeyLinks_pairs(2)[OF assms] have m: "linkPair l \<in> set (allPairs sc data)"
    and v: "value' l = count_list (allPairs sc data) (linkPair l)"
    by simp_all
  from m have "0 < count_list (allPairs sc data) (linkPair l)"
    using count_list_0_iff[of "allPairs sc data" "linkPair l"] by simp
  with v show "1 \<le> value' l" by simp
  from v show "value' l = length (filter (\<lambda>d. linkPair l \<in> set (rowPairs sc d)) data)"
    by (simp add: count_allPairs)
qed

text \<open>
  C5. For every record collection and every selected condition, no two edges of the flow
  graph have the same (source name, target name) pair; the weight of every edge is at
  least 1 and is the number of records that derive its pair; the pairs of the edges are
  exactly the pairs that the records derive; no two nodes have the same name, and the
  names of the nodes are exactly the names that the records derive. For the two records
  of scenario B, with CGPA 3.6 and 3.7, the builder makes the one CGPA node
  \<^verbatim>\<open>'3.5-4.0'\<close>, whose outgoing edge has weight 2.
\<close>

theorem flow_edges_deduplicated:
  "distinct (map linkPair (sankeyLinks sc data))
   \<and> (\<forall>l \<in> set (sankeyLinks sc data).
         1 \<le> value' l
         \<and> value' l = length (filter (\<lambda>d. linkPair l \<in> set (rowPairs sc d)) data))
   \<and> set (map linkPair (sankeyLinks sc data)) = (\<Union>d \<in> set data. set (rowPairs sc d))
   \<and> distinct (map name (sankeyNodes sc data))
   \<and> set (map name (sankeyNodes sc data)) = (\<Union>d \<in> set data. set (rowNames sc d))
   \<and> map name (sankeyNodes ''Depression''
        [sampleRow (JStr ''3.6'') ''year 1'' ''Yes'' ''No'' ''No'' ''No'',
         sampleRow (JStr ''3.7'') ''year 1'' ''Yes'' ''No'' ''No'' ''No''])
      = [''3.5-4.0'', ''Depression Yes'', ''Treatment No'']
   \<and> map (\<lambda>l. (linkPair l, value' l)) (sankeyLinks ''Depression''
        [sampleRow (JStr ''3.6'') ''year 1'' ''Yes'' ''No'' ''No'' ''No'',
         sampleRow (JStr ''3.7'') ''year 1'' ''Yes'' ''No'' ''No'' ''No''])
      = [((''3.5-4.0'', ''Depression Yes''), 2), ((''Depression Yes'', ''Treatment No''), 2)]"
proof -
  have b1: "map name (sankeyNodes ''Depression''
        [sampleRow (JStr ''3.6'') ''year 1'' ''Yes'' ''No'' ''No'' ''No'',
         sampleRow (JStr ''3.7'') ''year 1'' ''Yes'' ''No'' ''No'' ''No''])
      = [''3.5-4.0'', ''Depression Yes'', ''Treatment No'']"
    by code_simp
  have b2: "map (\<lambda>l. (linkPair l, value' l)) (sankeyLinks ''Depression''
        [sampleRow (JStr ''3.6'') ''year 1'' ''Yes'' ''No'' ''No'' ''No'',
         sampleRow (JStr ''3.7'') ''year 1'' ''Yes'' ''No'' ''No'' ''No''])
      = [((''3.5-4.0'', ''Depression Yes''), 2), ((''Depression Yes'', ''Treatment No''), 2)]"
    by code_simp
  have "set (map linkPair (sankeyLinks sc data)) = (\<Union>d \<in> set data. set (rowPairs sc d))"
    by (simp only: sankeyLinks_pairs(3)) (simp add: allPairs_def)
  with b1 b2 show ?thesis
    using sankeyLinks_pairs(1)[of sc data] sankeyLinks_weight[of _ sc data]
      sankeyNodes_names[of sc data]
    by blast
qed

theorem flow_edges_deduplicated_witness:
  "\<lparr>source = \<lparr>name = ''3.5-4.0''\<rparr>, target = \<lparr>name = ''Depression Yes''\<rparr>, value' = 2\<rparr>
     \<in> set (sankeyLinks ''Depression''
        [sampleRow (JStr ''3.6'') ''year 1'' ''Yes'' ''No'' ''No'' ''No'',
         sampleRow (JStr ''3.7'') ''year 1'' ''Yes'' ''No'' ''No'' ''No''])
   \<and> length (filter (\<lambda>d. (''3.5-4.0'', ''Depression Yes'') \<in> set (rowPairs ''Depression'' d))
        [sampleRow (JStr ''3.6'') ''year 1'' ''Yes'' ''No'' ''No'' ''No'',
         sampleRow (JStr ''3.7'') ''year 1'' ''Yes'' ''No'' ''No'' ''No'']) = 2"
proof -
  let ?l = "\<lparr>source = \<lparr>name = ''3.5-4.0''\<rparr>, target = \<lparr>name = ''Depression Yes''\<rparr>, value' = 2\<rparr>"
  let ?data = "[sampleRow (JStr ''3.6'') ''year 1'' ''Yes'' ''No'' ''No'' ''No'',
         sampleRow (JStr ''3.7'') ''year 1'' ''Yes'' ''No'' ''No'' ''No'']"
  have m: "?l \<in> set (sankeyLinks ''Depression'' ?data)"
    by code_simp
  with flow_edges_deduplicated[of "''Depression''" ?data]
  have "value' ?l = length (filter (\<lambda>d. linkPair ?l \<in> set (rowPairs ''Depression'' d)) ?data)"
    by blast
  with m show ?thesis
    by (simp add: linkPair_def)
qed

subsection \<open>Sums of edge weights\<close>

lemma sum_counts_filter:
  "distinct xs \<Longrightarrow> set ps \<subseteq> set xs \<Longrightarrow>
   sum_list (map (count_list ps) (filter Q xs)) = length (filter Q ps)"
proof (induction ps)
  case Nil
  then show ?case by simp
next
  case (Cons p ps)
  have "sum_list (map (count_list (p # ps)) (filter Q xs))
      = sum_list (map (\<lambda>q. (if p = q then 1 else 0) + count_list ps q) (filter Q xs))"
    by (rule arg_cong[where f=sum_list]) simp
  also have "\<dots> = sum_list (map (\<lambda>q. if p = q then 1 else 0) (filter Q xs))
                  + sum_list (map (count_list ps) (filter Q xs))"
    by (simp only: sum_list_addf)
  also have "sum_list (map (\<lambda>q. if p = q then (1::nat) else 0) (filter Q xs))
      = (if p \<in> set (filter Q xs) then 1 else 0)"
    using Cons.prems(1) by (intro count_one) simp
  finally show ?case
    using Cons by auto
qed

lemma weightSum_pairs:
  "weightSum (\<lambda>l. Q (linkPair l)) (sankeyLinks sc data) = length (filter Q (allPairs sc data))"
proof -
  let ?ls = "sankeyLinks sc data" and ?ps = "allPairs sc data"
  have "map value' (filter (\<lambda>l. Q (linkPair l)) ?ls)
      = map (\<lambda>l. count_list ?ps (linkPair l)) (filter (\<lambda>l. Q (linkPair l)) ?ls)"
    by (rule map_cong) (simp_all add: sankeyLinks_pairs(2))
  also have "\<dots> = map (count_list ?ps) (filter Q (map linkPair ?ls))"
    by (simp add: filter_map comp_def)
  finally have "weightSum (\<lambda>l. Q (linkPair l)) ?ls
      = sum_list (map (count_list ?ps) (filter Q (map linkPair ?ls)))"
    by (simp add: weightSum_def)
  also have "\<dots> = length (filter Q ?ps)"
    using sankeyLinks_pairs(1)[of sc data] sankeyLinks_pairs(3)[of sc data]
    by (intro sum_counts_filter) simp_all
  finally show ?thesis .
qed

lemma filter_allPairs:
  assumes "\<And>d. length (filter Q (rowPairs sc d)) = (if R d then 1 else 0)"
  shows "length (filter Q (allPairs sc data)) = length (filter R data)"
  unfolding allPairs_def by (induction data) (simp_all add: assms)

lemma condition_not_bin: "conditionNodeName sc d \<notin> set (cgpaBinLabels @ [''Unknown''])"
proof
  assume "conditionNodeName sc d \<in> set (cgpaBinLabels @ [''Unknown''])"
  then have "CHR '' '' \<notin> set (conditionNodeName sc d)"
    by (rule bin_no_blank)
  then show False
    by (simp add: conditionNodeName_def)
qed

lemma weight_out_of_bins:
  "weightSum (\<lambda>l. isCgpaNode (source l)) (sankeyLinks sc data)
   = length (filter (\<lambda>d. cgpaRangeOf d \<in> set cgpaBinLabels) data)"
proof -
  let ?Q = "\<lambda>p. fst p \<in> set cgpaBinLabels"
  have "weightSum (\<lambda>l. ?Q (linkPair l)) (sankeyLinks sc data) = length (filter ?Q (allPairs sc data))"
    by (rule weightSum_pairs)
  moreover have "length (filter ?Q (allPairs sc data))
      = length (filter (\<lambda>d. cgpaRangeOf d \<in> set cgpaBinLabels) data)"
    using condition_not_bin[of sc] by (intro filter_allPairs) (simp add: rowPairs_def)
  ultimately show ?thesis
    by (simp add: isCgpaNode_def includes'_def linkPair_def)
qed

lemma weight_out_of_unknown:
  "weightSum (\<lambda>l. name (source l) = ''Unknown'') (sankeyLinks sc data)
   = length (filter (\<lambda>d. cgpaRangeOf d = ''Unknown'') data)"
proof -
  let ?Q = "\<lambda>p. fst p = ''Unknown''"
  have "weightSum (\<lambda>l. ?Q (linkPair l)) (sankeyLinks sc data) = length (filter ?Q (allPairs sc data))"
    by (rule weightSum_pairs)
  moreover have "length (filter ?Q (allPairs sc data))
      = length (filter (\<lambda>d. cgpaRangeOf d = ''Unknown'') data)"
    using condition_not_bin[of sc] by (intro filter_allPairs) (simp add: rowPairs_def)
  ultimately show ?thesis
    by (simp add: linkPair_def)
qed

lemma option_not_treatment:
  assumes "sc \<in> set conditionOptions"
  shows "\<not> prefix ''Treatment '' (conditionNodeName sc d)"
  using assms by (auto simp: conditionOptions_def conditionNodeName_def)

lemma weight_into_treatment:
  assumes "sc \<in> set conditionOptions"
  shows "weightSum (\<lambda>l. isTreatmentNode (target l)) (sankeyLinks sc data) = length data"
proof -
  let ?Q = "\<lambda>p. prefix ''Treatment '' (snd p)"
  have "weightSum (\<lambda>l. ?Q (linkPair l)) (sankeyLinks sc data) = length (filter ?Q (allPairs sc data))"
    by (rule weightSum_pairs)
  moreover have "length (filter ?Q (allPairs sc data)) = length (filter (\<lambda>d. True) data)"
    using option_not_treatment[OF assms]
    by (intro filter_allPairs) (simp add: rowPairs_def treatmentNodeName_def)
  ultimately show ?thesis
    by (simp add: isTreatmentNode_def startsWith_def linkPair_def)
qed

lemma unparseable_Unknown: "\<not> parseable d \<Longrightarrow> cgpaRangeOf d = ''Unknown''"
  by (simp add: parseable_def cgpaRangeOf_def getCgpabin_def)

lemma bin_or_Unknown: "(cgpaRangeOf d \<in> set cgpaBinLabels) = (cgpaRangeOf d \<noteq> ''Unknown'')"
  using cgpaRangeOf_values[of d] by (auto simp: cgpaBinLabels_def)

text \<open>
  C1, as stated, at the collection of two records, the first with the CGPA cell
  \<^verbatim>\<open>'N/A'\<close>, which does not parse, and the second with the CGPA cell \<^verbatim>\<open>'5'\<close>, which parses
  and lies outside every range. Both get the bin \<^verbatim>\<open>'Unknown'\<close>: the node \<^verbatim>\<open>'Unknown'\<close> is
  created and its edge to the condition node has weight 2. One record has a parseable
  CGPA, and the weights out of the first-stage nodes sum to 2 (to 0 when only the nodes
  with one of the five labels count as CGPA-bin nodes).
\<close>

theorem unparseable_cgpa_counterexample:
  "\<not> parseable (sampleRow (JStr ''N/A'') ''year 1'' ''No'' ''No'' ''No'' ''No'')
   \<and> parseable (sampleRow (JStr ''5'') ''year 1'' ''No'' ''No'' ''No'' ''No'')
   \<and> length (filter parseable
        [sampleRow (JStr ''N/A'') ''year 1'' ''No'' ''No'' ''No'' ''No'',
         sampleRow (JStr ''5'') ''year 1'' ''No'' ''No'' ''No'' ''No'']) = 1
   \<and> map name (sankeyNodes ''Depression''
        [sampleRow (JStr ''N/A'') ''year 1'' ''No'' ''No'' ''No'' ''No'',
         sampleRow (JStr ''5'') ''year 1'' ''No'' ''No'' ''No'' ''No''])
      = [''Unknown'', ''Depression No'', ''Treatment No'']
   \<and> map (\<lambda>l. (linkPair l, value' l)) (sankeyLinks ''Depression''
        [sampleRow (JStr ''N/A'') ''year 1'' ''No'' ''No'' ''No'' ''No'',
         sampleRow (JStr ''5'') ''year 1'' ''No'' ''No'' ''No'' ''No''])
      = [((''Unknown'', ''Depression No''), 2), ((''Depression No'', ''Treatment No''), 2)]
   \<and> weightSum (\<lambda>l. \<not> isConditionNode ''Depression'' (source l)) (sankeyLinks ''Depression''
        [sampleRow (JStr ''N/A'') ''year 1'' ''No'' ''No'' ''No'' ''No'',
         sampleRow (JStr ''5'') ''year 1'' ''No'' ''No'' ''No'' ''No'']) = 2
   \<and> weightSum (\<lambda>l. isCgpaNode (source l)) (sankeyLinks ''Depression''
        [sampleRow (JStr ''N/A'') ''year 1'' ''No'' ''No'' ''No'' ''No'',
         sampleRow (JStr ''5'') ''year 1'' ''No'' ''No'' ''No'' ''No'']) = 0"
  by code_simp

text \<open>
  C1, amended. A record whose CGPA does not parse gets the bin \<^verbatim>\<open>'Unknown'\<close>: the node
  \<^verbatim>\<open>'Unknown'\<close> is created for it, and both its edge from \<^verbatim>\<open>'Unknown'\<close> to its condition
  node and its edge from the condition node to its treatment node are recorded. For each
  of the three conditions of the picker and every record collection, the weights of the
  edges out of the nodes with one of the five CGPA labels sum to the number of records
  whose parsed CGPA lies in one of the five ranges (at most the number of records with a
  parseable CGPA), the weights of the edges out of \<^verbatim>\<open>'Unknown'\<close> sum to the number of the
  other records, and the weights of the edges into the treatment nodes sum to the number
  of all records.
\<close>

theorem flow_weight_sums:
  assumes "sc \<in> set conditionOptions"
  shows "weightSum (\<lambda>l. isCgpaNode (source l)) (sankeyLinks sc data)
       = length (filter (\<lambda>d. cgpaRangeOf d \<noteq> ''Unknown'') data)
     \<and> weightSum (\<lambda>l. name (source l) = ''Unknown'') (sankeyLinks sc data)
       = length (filter (\<lambda>d. cgpaRangeOf d = ''Unknown'') data)
     \<and> weightSum (\<lambda>l. isTreatmentNode (target l)) (sankeyLinks sc data) = length data
     \<and> length (filter (\<lambda>d. cgpaRangeOf d \<noteq> ''Unknown'') data) \<le> length (filter parseable data)
     \<and> (\<forall>d \<in> set data. \<not> parseable d \<longrightarrow>
           cgpaRangeOf d = ''Unknown''
           \<and> ''Unknown'' \<in> set (map name (sankeyNodes sc data))
           \<and> (''Unknown'', conditionNodeName sc d) \<in> set (map linkPair (sankeyLinks sc data))
           \<and> (conditionNodeName sc d, treatmentNodeName d)
               \<in> set (map linkPair (sankeyLinks sc data)))"
proof -
  have 1: "weightSum (\<lambda>l. isCgpaNode (source l)) (sankeyLinks sc data)
       = length (filter (\<lambda>d. cgpaRangeOf d \<noteq> ''Unknown'') data)"
    by (simp add: weight_out_of_bins bin_or_Unknown)
  have 4: "length (filter (\<lambda>d. cgpaRangeOf d \<noteq> ''Unknown'') data) \<le> length (filter parseable data)"
  proof -
    have "filter (\<lambda>d. cgpaRangeOf d \<noteq> ''Unknown'') data
        = filter (\<lambda>d. cgpaRangeOf d \<noteq> ''Unknown'') (filter parseable data)"
      using unparseable_Unknown by (auto intro: filter_cong)
    then show ?thesis
      by (metis length_filter_le)
  qed
  have 5: "cgpaRangeOf d = ''Unknown''
           \<and> ''Unknown'' \<in> set (map name (sankeyNodes sc data))
           \<and> (''Unknown'', conditionNodeName sc d) \<in> set (map linkPair (sankeyLinks sc data))
           \<and> (conditionNodeName sc d, treatmentNodeName d)
               \<in> set (map linkPair (sankeyLinks sc data))"
    if d: "d \<in> set data" and n: "\<not> parseable d" for d
  proof -
    from n have u: "cgpaRangeOf d = ''Unknown''"
      by (rule unparseable_Unknown)
    then have "''Unknown'' \<in> set (rowNames sc d)"
      by (simp add: rowNames_def)
    with d have "''Unknown'' \<in> (\<Union>d \<in> set data. set (rowNames sc d))"
      by blast
    then have a: "''Unknown'' \<in> set (map name (sankeyNodes sc data))"
      by (simp only: sankeyNodes_names(2))
    from u have "(''Unknown'', conditionNodeName sc d) \<in> set (rowPairs sc d)"
      "(conditionNodeName sc d, treatmentNodeName d) \<in> set (rowPairs sc d)"
      by (simp_all add: rowPairs_def)
    with d have "(''Unknown'', conditionNodeName sc d) \<in> set (allPairs sc data)"
      "(conditionNodeName sc d, treatmentNodeName d) \<in> set (allPairs sc data)"
      unfolding allPairs_def by auto
    then have "(''Unknown'', conditionNodeName sc d) \<in> set (map linkPair (sankeyLinks sc data))"
      "(conditionNodeName sc d, treatmentNodeName d) \<in> set (map linkPair (sankeyLinks sc data))"
      by (simp_all only: sankeyLinks_pairs(3))
    with u a show ?thesis by simp
  qed
  from 1 4 5 show ?thesis
    using weight_out_of_unknown[of sc data] weight_into_treatment[OF assms, of data]
    by blast
qed

theorem flow_weight_sums_witness:
  "weightSum (\<lambda>l. isCgpaNode (source l)) (sankeyLinks ''Anxiety''
        [sampleRow (JStr ''N/A'') ''year 1'' ''No'' ''Yes'' ''No'' ''No'',
         sampleRow (JStr ''3.00 - 3.49'') ''year 2'' ''No'' ''No'' ''No'' ''Yes'',
         sampleRow (JNum (Fin (37 / 10))) ''year 2'' ''No'' ''No'' ''No'' ''Yes'']) = 2
   \<and> weightSum (\<lambda>l. name (source l) = ''Unknown'') (sankeyLinks ''Anxiety''
        [sampleRow (JStr ''N/A'') ''year 1'' ''No'' ''Yes'' ''No'' ''No'',
         sampleRow (JStr ''3.00 - 3.49'') ''year 2'' ''No'' ''No'' ''No'' ''Yes'',
         sampleRow (JNum (Fin (37 / 10))) ''year 2'' ''No'' ''No'' ''No'' ''Yes'']) = 1
   \<and> weightSum (\<lambda>l. isTreatmentNode (target l)) (sankeyLinks ''Anxiety''
        [sampleRow (JStr ''N/A'') ''year 1'' ''No'' ''Yes'' ''No'' ''No'',
         sampleRow (JStr ''3.00 - 3.49'') ''year 2'' ''No'' ''No'' ''No'' ''Yes'',
         sampleRow (JNum (Fin (37 / 10))) ''year 2'' ''No'' ''No'' ''No'' ''Yes'']) = 3
   \<and> (''Unknown'', ''Anxiety Yes'') \<in> set (map linkPair (sankeyLinks ''Anxiety''
        [sampleRow (JStr ''N/A'') ''year 1'' ''No'' ''Yes'' ''No'' ''No'',
         sampleRow (JStr ''3.00 - 3.49'') ''year 2'' ''No'' ''No'' ''No'' ''Yes'',
         sampleRow (JNum (Fin (37 / 10))) ''year 2'' ''No'' ''No'' ''No'' ''Yes'']))"
proof -
  let ?r1 = "sampleRow (JStr ''N/A'') ''year 1'' ''No'' ''Yes'' ''No'' ''No''"
  let ?r2 = "sampleRow (JStr ''3.00 - 3.49'') ''year 2'' ''No'' ''No'' ''No'' ''Yes''"
  let ?r3 = "sampleRow (JNum (Fin (37 / 10))) ''year 2'' ''No'' ''No'' ''No'' ''Yes''"
  have o: "''Anxiety'' \<in> set conditionOptions"
    by (simp add: conditionOptions_def)
  have c: "cgpaRangeOf ?r1 = ''Unknown''" "cgpaRangeOf ?r2 = ''3.0-3.49''"
    "cgpaRangeOf ?r3 = ''3.5-4.0''" "\<not> parseable ?r1"
    "conditionNodeName ''Anxiety'' ?r1 = ''Anxiety Yes''"
    by code_simp+
  from flow_weight_sums[OF o, of "[?r1, ?r2, ?r3]"] c show ?thesis
    by simp
qed

end
